theory Spec2Isabelle
  imports Main
begin

section \<open>Errors\<close>

text \<open>
  A Go \<^verbatim>\<open>error\<close> value. \<open>Err m\<close> is an error identified by its message (for instance
  \<^verbatim>\<open>fmt.Errorf("build error")\<close>, or whatever the operating system or a library
  reports); \<open>Watching p e\<close> is \<^verbatim>\<open>fmt.Errorf("watching %q: %w", p, e)\<close>, which wraps \<open>e\<close>.
  The nil error is \<open>None\<close> of \<open>error option\<close>.
\<close>

datatype error = Err string | Watching string error

section \<open>The child process: \<^verbatim>\<open>cmdProcess\<close> (internal/run.go)\<close>

text \<open>
  \<open>cmd_Process\<close> is \<^verbatim>\<open>proc.cmd.Process\<close>: nil until \<^verbatim>\<open>cmd.Start()\<close> has succeeded,
  afterwards the handle of the child, of which only the \<^verbatim>\<open>Pid\<close> is read.
\<close>

record cmdProcess =
  cmd_Process :: "int option"

datatype signal = SIGTERM | SIGKILL

text \<open>
  The system calls \<^verbatim>\<open>Stop\<close> makes: \<^verbatim>\<open>syscall.Kill(pid, sig)\<close>, where a negative
  \<open>pid\<close> addresses the process group \<open>- pid\<close>, and \<^verbatim>\<open>os.Process.Kill()\<close> on one process.
\<close>

datatype syscall = Kill int signal | ProcessKill int

text \<open>
  What a call does besides returning: a system call made by the caller itself before
  it returns (\<open>Sys\<close>), or a goroutine started with \<^verbatim>\<open>go func() {...}()\<close> (\<open>Go\<close>),
  whose statements run on their own, not in the caller.
\<close>

datatype stmt = Sleep int | Call syscall

datatype effect = Sys syscall | Go "stmt list"

text \<open>\<^verbatim>\<open>time.Duration\<close> counts nanoseconds.\<close>

definition Millisecond :: int where
  "Millisecond = 1000000"

definition Second :: int where
  "Second = 1000 * Millisecond"

definition maxProcStopWait :: int where
  "maxProcStopWait = 5 * Second"

text \<open>
  \<^verbatim>\<open>CreateProcess\<close> as \<^verbatim>\<open>Run\<close> of internal/run.go passes it (the branch without
  \<^verbatim>\<open>BuildOnly\<close>): an \<^verbatim>\<open>exec.Command\<close> that has not been started.
\<close>

definition CreateProcess :: cmdProcess where
  "CreateProcess = \<lparr>cmd_Process = None\<rparr>"

text \<open>
  \<^verbatim>\<open>Start\<close> is \<^verbatim>\<open>proc.cmd.Start()\<close>. Its outcome \<open>r\<close> is the operating system's:
  an error, or the pid of the new child, which \<^verbatim>\<open>cmd.Process\<close> then holds.
\<close>

definition Start :: "error + int \<Rightarrow> cmdProcess \<Rightarrow> error option \<times> cmdProcess" where
  "Start r proc =
     (case r of
        Inl err \<Rightarrow> (Some err, proc)
      | Inr pid \<Rightarrow> (None, proc\<lparr>cmd_Process := Some pid\<rparr>))"

text \<open>
  \<^verbatim>\<open>Stop\<close>. \<open>goos\<close> is \<^verbatim>\<open>runtime.GOOS\<close>; \<open>res\<close> is what the operating system answers
  to the one system call \<^verbatim>\<open>Stop\<close> makes itself. The result is the returned error and
  the effects in program order.
\<close>

definition Stop :: "string \<Rightarrow> error option \<Rightarrow> cmdProcess \<Rightarrow> error option \<times> effect list" where
  "Stop goos res proc =
     (case cmd_Process proc of
        None \<Rightarrow> (None, [])
      | Some pid \<Rightarrow>
          if goos = ''windows'' then (res, [Sys (ProcessKill pid)])
          else (res, [Go [Sleep maxProcStopWait, Call (Kill (- pid) SIGKILL)],
                      Sys (Kill (- pid) SIGTERM)]))"

text \<open>
  \<^verbatim>\<open>Wait\<close>: nil for a process that was never started, else the status \<open>status\<close> that
  \<^verbatim>\<open>cmd.Wait()\<close> returns once the child has exited.
\<close>

definition Wait :: "error option \<Rightarrow> cmdProcess \<Rightarrow> error option" where
  "Wait status proc = (if cmd_Process proc = None then None else status)"

section \<open>The supervisor: \<^verbatim>\<open>buildAndWatch.Run\<close>\<close>

text \<open>
  \<^verbatim>\<open>Run\<close> starts two goroutines, which share the channels \<^verbatim>\<open>abort\<close> and
  \<^verbatim>\<open>restart\<close>. The model is a state of the whole program and a step function: a
  schedule, a list of \<open>tick\<close>s, says which goroutine runs next and what the outside
  (the operating system, the watcher, the child, the clock, the Go runtime) answers it.
  A goroutine that is scheduled while it cannot proceed, because it is blocked at a
  channel operation, leaves the state as it is. Properties that hold for every schedule
  hold for every interleaving. The process is the \<^verbatim>\<open>cmdProcess\<close> that \<^verbatim>\<open>Run\<close> of
  internal/run.go creates when \<^verbatim>\<open>BuildOnly\<close> is not set. Line numbers are those of
  the file that declares \<^verbatim>\<open>buildAndWatch\<close>.
\<close>

text \<open>
  The options \<^verbatim>\<open>Run\<close> reads: \<^verbatim>\<open>opts.Repository.RootDir\<close>,
  \<^verbatim>\<open>opts.Esbuild.EntryPoints\<close> and \<^verbatim>\<open>opts.Watch\<close>. \<^verbatim>\<open>opts.CreateProcess\<close> is
  \<open>CreateProcess\<close> above.
\<close>

record buildAndWatch =
  RootDir :: string
  EntryPoints :: "string list"
  Watch :: bool

text \<open>Of an \<^verbatim>\<open>api.BuildResult\<close> the code reads \<^verbatim>\<open>len(result.Errors)\<close> only.\<close>

record BuildResult =
  Errors :: "string list"

text \<open>
  What lies outside the program and is fixed for one call of \<^verbatim>\<open>Run\<close>:
  \<^verbatim>\<open>runtime.GOOS\<close>, the library functions \<^verbatim>\<open>filepath.IsAbs\<close> and
  \<^verbatim>\<open>filepath.Join\<close>, the outcomes of \<^verbatim>\<open>fsnotify.NewWatcher()\<close> and of
  \<^verbatim>\<open>watcher.Add(path)\<close>, and the result of \<^verbatim>\<open>api.Build\<close>.
\<close>

record world =
  GOOS :: string
  IsAbs :: "string \<Rightarrow> bool"
  Join :: "string \<Rightarrow> string \<Rightarrow> string"
  NewWatcher_res :: "error option"
  watcher_Add :: "string \<Rightarrow> error option"
  Build_res :: BuildResult

subsection \<open>Channels and goroutines\<close>

text \<open>
  \<^verbatim>\<open>done := make(chan error, 1)\<close> of the current iteration. Its only sender is the
  goroutine \<^verbatim>\<open>go func() { done <- proc.Wait() }()\<close>, started after a successful
  \<^verbatim>\<open>Start\<close>. \<open>NoSender\<close>: the channel is empty and no goroutine will send on it;
  \<open>Sender\<close>: it is empty and that goroutine is waiting in \<^verbatim>\<open>proc.Wait()\<close>;
  \<open>Full v\<close>: the goroutine has sent \<open>v\<close>, which is buffered.
\<close>

datatype done_chan = NoSender | Sender | Full "error option"

text \<open>\<^verbatim>\<open>restart := make(chan struct{}, 1)\<close>: the number of buffered signals, at most 1.\<close>

definition restart_cap :: nat where
  "restart_cap = 1"

text \<open>
  Where the control-loop goroutine (lines 79 to 149) stands. \<open>Entry\<close>: at its first
  statement; \<open>Top\<close>: at the head of the \<^verbatim>\<open>for\<close> loop (line 88); \<open>Select\<close>: at the
  \<^verbatim>\<open>select\<close> of line 111; \<open>Debounce\<close>: at the inner \<^verbatim>\<open>select\<close> of line 124;
  \<open>WaitDone b\<close>: in \<^verbatim>\<open>waitDone()\<close>, at \<^verbatim>\<open><-done\<close>, called from the abort case
  (line 116) or from the restart case (line 133); \<open>Returned r\<close>: it has returned \<open>r\<close>.
\<close>

datatype branch = OnAbort | OnRestart

datatype loop_pc = Entry | Top | Select | Debounce | WaitDone branch | Returned "error option"

text \<open>
  Where the second goroutine stands. In watch mode it is the relay (lines 152 to 170):
  at its \<^verbatim>\<open>select\<close> (\<open>RSelect\<close>), at the send \<^verbatim>\<open>restart <- struct{}{}\<close>
  (\<open>RSend\<close>), or returned. Without watch mode it is the goroutine of lines 172 to 175,
  which is not in the errgroup: at \<^verbatim>\<open><-ctx.Done()\<close> (\<open>CtxWait\<close>) or finished.
\<close>

datatype relay_pc = RSelect | RSend | RReturned "error option" | CtxWait | CtxExit

text \<open>A receive \<^verbatim>\<open>v, ok := <-ch\<close>: a value, or the channel is closed.\<close>

datatype 'a recv = Recv 'a | Closed

text \<open>What the relay's \<^verbatim>\<open>select\<close> receives.\<close>

datatype relay_in = WatcherEvents "string recv" | WatcherErrors "error recv" | CtxDone

datatype select_case = CaseAbort | CaseRestart | CaseDone | CaseDelay

text \<open>
  What the outside answers the control loop when it runs: the outcome of
  \<^verbatim>\<open>cmd.Start()\<close>, the outcome of the system call of \<^verbatim>\<open>Stop\<close>, the result of
  \<^verbatim>\<open>result.Rebuild()\<close>, the case Go's \<^verbatim>\<open>select\<close> picks when several are ready, and
  the time in nanoseconds since the goroutine arrived at the statement it is blocked at.
\<close>

record loop_in =
  start_res :: "error + int"
  kill_res :: "error option"
  rebuild_res :: BuildResult
  pick :: select_case
  waited :: int

text \<open>
  One step of the whole program: the control loop runs up to its next stop, the second
  goroutine runs up to its next stop, or the child exits and \<^verbatim>\<open>cmd.Wait()\<close> returns.
\<close>

datatype tick = Loop loop_in | Relay relay_in | Exit "error option"

text \<open>What the program does, in the order it does it. Writes to stderr are left out.\<close>

datatype action =
    NewWatcher | WatcherAdd string | WatcherClose | CallBuild
  | CallCreateProcess | CallStart "error option" | CallStop "error option" | CallRebuild
  | RecvAbort | RecvRestart | RecvDone "error option"
  | SendRestart | CloseAbort

text \<open>
  The state of the program: whether \<^verbatim>\<open>abort\<close> is closed, how many signals
  \<^verbatim>\<open>restart\<close> holds, the \<^verbatim>\<open>done\<close> of the current iteration; where the control
  loop stands and its variables \<^verbatim>\<open>waitForChange\<close>, \<^verbatim>\<open>result\<close> and \<^verbatim>\<open>proc\<close>; where
  the second goroutine stands; the error the errgroup has kept; the system calls and
  goroutines of \<^verbatim>\<open>Stop\<close>; and what the program has done so far.
\<close>

record sys =
  abort_ch :: bool
  restart_ch :: nat
  done_ch :: done_chan
  pc :: loop_pc
  waitForChange :: bool
  result :: BuildResult
  proc :: cmdProcess
  relay :: relay_pc
  g_err :: "error option"
  effects :: "effect list"
  trace :: "action list"

definition emit :: "action \<Rightarrow> sys \<Rightarrow> sys" where
  "emit a s = s\<lparr>trace := trace s @ [a]\<rparr>"

text \<open>
  A goroutine of the errgroup returns \<open>err\<close>: the group keeps the first error that is
  not nil.
\<close>

definition group_return :: "error option \<Rightarrow> sys \<Rightarrow> sys" where
  "group_return err s = (if err \<noteq> None \<and> g_err s = None then s\<lparr>g_err := err\<rparr> else s)"

definition loop_return :: "error option \<Rightarrow> sys \<Rightarrow> sys" where
  "loop_return err s = (group_return err s)\<lparr>pc := Returned err\<rparr>"

subsection \<open>The control loop\<close>

text \<open>Lines 80 to 86.\<close>

definition entry :: "bool \<Rightarrow> sys \<Rightarrow> sys" where
  "entry watch s =
     (if length (Errors (result s)) > 0 \<and> \<not> watch then loop_return (Some (Err ''build error'')) s
      else s\<lparr>waitForChange := False, pc := Top\<rparr>)"

text \<open>Lines 88 to 110: a new process and a new \<^verbatim>\<open>done\<close>, then the start.\<close>

definition top :: "bool \<Rightarrow> loop_in \<Rightarrow> sys \<Rightarrow> sys" where
  "top watch li s0 =
     (let s = emit CallCreateProcess (s0\<lparr>proc := CreateProcess, done_ch := NoSender\<rparr>);
          buildOK = (length (Errors (result s)) = 0);
          shouldStart = (buildOK \<and> \<not> waitForChange s)
      in if shouldStart then
           (case Start (start_res li) (proc s) of
              (Some err, p) \<Rightarrow>
                if \<not> watch then loop_return (Some err) (emit (CallStart (Some err)) (s\<lparr>proc := p\<rparr>))
                else (emit (CallStart (Some err)) (s\<lparr>proc := p\<rparr>))
                       \<lparr>waitForChange := True, pc := Select\<rparr>
            | (None, p) \<Rightarrow>
                (emit (CallStart None) (s\<lparr>proc := p\<rparr>))\<lparr>done_ch := Sender, pc := Select\<rparr>)
         else s\<lparr>pc := Select\<rparr>)"

text \<open>
  What follows \<^verbatim>\<open>Stop\<close> and \<^verbatim>\<open>waitDone\<close>: \<^verbatim>\<open>return nil\<close> in the abort case
  (line 118), the rebuild and the next iteration in the restart case (lines 135, 136).
\<close>

definition after :: "branch \<Rightarrow> loop_in \<Rightarrow> sys \<Rightarrow> sys" where
  "after b li s =
     (case b of
        OnAbort \<Rightarrow> loop_return None s
      | OnRestart \<Rightarrow>
          (emit CallRebuild s)\<lparr>result := rebuild_res li, waitForChange := False, pc := Top\<rparr>)"

text \<open>
  \<^verbatim>\<open>waitDone()\<close>: the receive \<^verbatim>\<open><-done\<close>. It takes the buffered value if there is
  one; otherwise the goroutine stays at the receive.
\<close>

definition wait_done :: "branch \<Rightarrow> loop_in \<Rightarrow> sys \<Rightarrow> sys" where
  "wait_done b li s =
     (case done_ch s of
        Full err \<Rightarrow> after b li (emit (RecvDone err) (s\<lparr>done_ch := NoSender\<rparr>))
      | _ \<Rightarrow> s\<lparr>pc := WaitDone b\<rparr>)"

text \<open>
  Lines 113 to 117 and 130 to 134: \<^verbatim>\<open>proc.Stop()\<close>; on an error a message and no
  wait, otherwise \<^verbatim>\<open>waitDone()\<close>.
\<close>

definition stop_then :: "string \<Rightarrow> branch \<Rightarrow> loop_in \<Rightarrow> sys \<Rightarrow> sys" where
  "stop_then goos b li s =
     (case Stop goos (kill_res li) (proc s) of
        (Some err, fx) \<Rightarrow> after b li (emit (CallStop (Some err)) (s\<lparr>effects := effects s @ fx\<rparr>))
      | (None, fx) \<Rightarrow> wait_done b li (emit (CallStop None) (s\<lparr>effects := effects s @ fx\<rparr>)))"

text \<open>
  The cases of the \<^verbatim>\<open>select\<close> of line 111 that can proceed, in source order, and
  the choice among them: the one the runtime picks if it is ready, else the first
  ready one; none if no case is ready, and the goroutine stays blocked.
\<close>

definition select_ready :: "sys \<Rightarrow> select_case list" where
  "select_ready s =
     (if abort_ch s then [CaseAbort] else []) @
     (if restart_ch s > 0 then [CaseRestart] else []) @
     (case done_ch s of Full _ \<Rightarrow> [CaseDone] | _ \<Rightarrow> [])"

definition select_choice :: "select_case \<Rightarrow> select_case list \<Rightarrow> select_case option" where
  "select_choice p rs = (if p \<in> set rs then Some p else case rs of [] \<Rightarrow> None | r # _ \<Rightarrow> Some r)"

text \<open>Lines 111 to 147.\<close>

definition select_step :: "bool \<Rightarrow> string \<Rightarrow> loop_in \<Rightarrow> sys \<Rightarrow> sys" where
  "select_step watch goos li s =
     (case select_choice (pick li) (select_ready s) of
        None \<Rightarrow> s
      | Some CaseAbort \<Rightarrow> stop_then goos OnAbort li (emit RecvAbort s)
      | Some CaseRestart \<Rightarrow> (emit RecvRestart s)\<lparr>restart_ch := restart_ch s - 1, pc := Debounce\<rparr>
      | Some CaseDone \<Rightarrow>
          (case done_ch s of
             Full err \<Rightarrow>
               if \<not> watch then loop_return err (emit (RecvDone err) (s\<lparr>done_ch := NoSender\<rparr>))
               else (emit (RecvDone err) (s\<lparr>done_ch := NoSender\<rparr>))
                      \<lparr>waitForChange := True, pc := Top\<rparr>
           | _ \<Rightarrow> s)
      | Some CaseDelay \<Rightarrow> s)"

text \<open>
  Lines 121 to 129. \<^verbatim>\<open>delay\<close> is a fresh \<^verbatim>\<open>time.After(50 * time.Millisecond)\<close> in
  each round: it is ready once the goroutine has waited that long in this round. A
  restart signal received starts a new round; the delay leaves the loop.
\<close>

definition debounce_step :: "string \<Rightarrow> loop_in \<Rightarrow> sys \<Rightarrow> sys" where
  "debounce_step goos li s =
     (let restart_ready = (restart_ch s > 0);
          delay_ready = (waited li \<ge> 50 * Millisecond)
      in if restart_ready \<and> (\<not> delay_ready \<or> pick li = CaseRestart) then
           (emit RecvRestart s)\<lparr>restart_ch := restart_ch s - 1\<rparr>
         else if delay_ready then stop_then goos OnRestart li s
         else s)"

definition loop_step :: "bool \<Rightarrow> string \<Rightarrow> loop_in \<Rightarrow> sys \<Rightarrow> sys" where
  "loop_step watch goos li s =
     (case pc s of
        Entry \<Rightarrow> entry watch s
      | Top \<Rightarrow> top watch li s
      | Select \<Rightarrow> select_step watch goos li s
      | Debounce \<Rightarrow> debounce_step goos li s
      | WaitDone b \<Rightarrow> wait_done b li s
      | Returned r \<Rightarrow> s)"

subsection \<open>The relay and the cancellation goroutine\<close>

definition close_abort :: "sys \<Rightarrow> sys" where
  "close_abort s = emit CloseAbort (s\<lparr>abort_ch := True\<rparr>)"

definition relay_return :: "error option \<Rightarrow> sys \<Rightarrow> sys" where
  "relay_return err s = (group_return err s)\<lparr>relay := RReturned err\<rparr>"

text \<open>
  \<^verbatim>\<open>restart <- struct{}{}\<close>, a plain send: it completes if the buffer has room and
  otherwise the relay stays at the send.
\<close>

definition send_restart :: "sys \<Rightarrow> sys" where
  "send_restart s =
     (if restart_ch s < restart_cap
      then emit SendRestart (s\<lparr>restart_ch := restart_ch s + 1, relay := RSelect\<rparr>)
      else s\<lparr>relay := RSend\<rparr>)"

text \<open>
  Lines 153 to 169, and lines 173, 174. A receive from the closed
  \<^verbatim>\<open>watcher.Errors\<close> yields the zero value, the nil error, and \<^verbatim>\<open>ok = false\<close>.
\<close>

definition relay_step :: "relay_in \<Rightarrow> sys \<Rightarrow> sys" where
  "relay_step rin s =
     (case relay s of
        RSelect \<Rightarrow>
          (case rin of
             WatcherEvents r \<Rightarrow>
               (case r of Closed \<Rightarrow> relay_return None s | Recv _ \<Rightarrow> send_restart s)
           | WatcherErrors r \<Rightarrow>
               (let (err, ok) = (case r of Recv e \<Rightarrow> (Some e, True) | Closed \<Rightarrow> (None, False))
                in if \<not> ok then relay_return err (close_abort s) else s)
           | CtxDone \<Rightarrow> relay_return None (close_abort s))
      | RSend \<Rightarrow> send_restart s
      | RReturned _ \<Rightarrow> s
      | CtxWait \<Rightarrow> (case rin of CtxDone \<Rightarrow> (close_abort s)\<lparr>relay := CtxExit\<rparr> | _ \<Rightarrow> s)
      | CtxExit \<Rightarrow> s)"

text \<open>
  The child exits: the goroutine of lines 106 to 108, if there is one, gets the result
  of \<^verbatim>\<open>proc.Wait()\<close> and sends it on \<^verbatim>\<open>done\<close>, whose buffer is free.
\<close>

definition proc_exit :: "error option \<Rightarrow> sys \<Rightarrow> sys" where
  "proc_exit status s =
     (case done_ch s of Sender \<Rightarrow> s\<lparr>done_ch := Full (Wait status (proc s))\<rparr> | _ \<Rightarrow> s)"

subsection \<open>The whole program\<close>

definition step :: "bool \<Rightarrow> string \<Rightarrow> tick \<Rightarrow> sys \<Rightarrow> sys" where
  "step watch goos t s =
     (case t of
        Loop li \<Rightarrow> loop_step watch goos li s
      | Relay rin \<Rightarrow> relay_step rin s
      | Exit status \<Rightarrow> proc_exit status s)"

fun exec :: "bool \<Rightarrow> string \<Rightarrow> tick list \<Rightarrow> sys \<Rightarrow> sys" where
  "exec watch goos [] s = s"
| "exec watch goos (t # ts) s = exec watch goos ts (step watch goos t s)"

text \<open>
  The state after \<^verbatim>\<open>api.Build\<close> (line 72), when both goroutines have been started
  and neither has run; \<open>tr\<close> is what was done before.
\<close>

definition init :: "bool \<Rightarrow> BuildResult \<Rightarrow> action list \<Rightarrow> sys" where
  "init watch res tr =
     \<lparr>abort_ch = False, restart_ch = 0, done_ch = NoSender, pc = Entry,
      waitForChange = False, result = res, proc = CreateProcess,
      relay = (if watch then RSelect else CtxWait), g_err = None, effects = [],
      trace = tr @ [CallBuild]\<rparr>"

text \<open>
  What \<^verbatim>\<open>Run\<close> has done when it is looked at: it has returned an error or nil, it has
  not returned, or it has ended the program with \<^verbatim>\<open>log.Fatal\<close>.
\<close>

datatype outcome = Returns "error option" | Pending | Fatal error

text \<open>
  \<^verbatim>\<open>g.Wait()\<close> (line 178) returns once every goroutine of the group has returned:
  the control loop and, in watch mode, the relay.
\<close>

definition g_Wait :: "bool \<Rightarrow> sys \<Rightarrow> outcome" where
  "g_Wait watch s =
     (case pc s of
        Returned _ \<Rightarrow>
          (if watch then (case relay s of RReturned _ \<Rightarrow> Returns (g_err s) | _ \<Rightarrow> Pending)
           else Returns (g_err s))
      | _ \<Rightarrow> Pending)"

text \<open>Lines 61 to 70: the entry points are registered with the watcher, in order.\<close>

definition abs_entrypoint :: "world \<Rightarrow> string \<Rightarrow> string \<Rightarrow> string" where
  "abs_entrypoint w root e = (if \<not> IsAbs w e then Join w root e else e)"

fun add_entrypoints :: "world \<Rightarrow> string \<Rightarrow> string list \<Rightarrow> error option \<times> action list" where
  "add_entrypoints w root [] = (None, [])"
| "add_entrypoints w root (e # es) =
     (let entrypoint = abs_entrypoint w root e
      in case watcher_Add w entrypoint of
           Some err \<Rightarrow> (Some (Watching entrypoint err), [WatcherAdd entrypoint])
         | None \<Rightarrow>
             (case add_entrypoints w root es of (r, tr) \<Rightarrow> (r, WatcherAdd entrypoint # tr)))"

text \<open>
  \<^verbatim>\<open>Run\<close>, looked at when the goroutines have made the steps \<open>sched\<close>: its outcome and
  what the program has done. The deferred \<^verbatim>\<open>watcher.Close()\<close> runs when \<^verbatim>\<open>Run\<close>
  returns.
\<close>

definition Run :: "buildAndWatch \<Rightarrow> world \<Rightarrow> tick list \<Rightarrow> outcome \<times> action list" where
  "Run opts w sched =
     (if Watch opts then
        (case NewWatcher_res w of
           Some err \<Rightarrow> (Fatal err, [NewWatcher])
         | None \<Rightarrow>
             (case add_entrypoints w (RootDir opts) (EntryPoints opts) of
                (Some err, tr) \<Rightarrow> (Returns (Some err), NewWatcher # tr @ [WatcherClose])
              | (None, tr) \<Rightarrow>
                  (let s = exec True (GOOS w) sched (init True (Build_res w) (NewWatcher # tr))
                   in case g_Wait True s of
                        Returns r \<Rightarrow> (Returns r, trace s @ [WatcherClose])
                      | out \<Rightarrow> (out, trace s))))
      else
        (let s = exec False (GOOS w) sched (init False (Build_res w) [])
         in (g_Wait False s, trace s)))"

section \<open>Properties of what the program does\<close>

text \<open>A call of \<^verbatim>\<open>proc.Start()\<close>, whatever it returns.\<close>

fun is_start :: "action \<Rightarrow> bool" where
  "is_start (CallStart r) = True"
| "is_start _ = False"

text \<open>\<open>start_after a tr\<close>: in \<open>tr\<close>, \<^verbatim>\<open>Start\<close> is called somewhere after an \<open>a\<close>.\<close>

fun start_after :: "action \<Rightarrow> action list \<Rightarrow> bool" where
  "start_after a [] = False"
| "start_after a (x # xs) = ((x = a \<and> list_ex is_start xs) \<or> start_after a xs)"

text \<open>
  What has been seen of the process started last: whether there is one, whether
  \<^verbatim>\<open>Stop\<close> has been called since it was started, whether that call returned an error,
  and whether a value has been received from \<^verbatim>\<open>done\<close> since it was started, which is
  how the loop sees the exit.
\<close>

record seen =
  started :: bool
  stop_called :: bool
  stop_failed :: bool
  exit_seen :: bool

definition nothing_seen :: seen where
  "nothing_seen = \<lparr>started = False, stop_called = False, stop_failed = False, exit_seen = False\<rparr>"

fun observe :: "seen \<Rightarrow> action \<Rightarrow> seen" where
  "observe m (CallStart None) =
     \<lparr>started = True, stop_called = False, stop_failed = False, exit_seen = False\<rparr>"
| "observe m (CallStop r) = m\<lparr>stop_called := True, stop_failed := (r \<noteq> None)\<rparr>"
| "observe m (RecvDone v) = m\<lparr>exit_seen := True\<rparr>"
| "observe m a = m"

text \<open>
  \<open>starts_confirmed ok m tr\<close>: every call of \<^verbatim>\<open>Start\<close> in \<open>tr\<close> comes when no process
  has been started before or when \<open>ok\<close> holds of what has been seen of the previous one.
\<close>

fun starts_confirmed :: "(seen \<Rightarrow> bool) \<Rightarrow> seen \<Rightarrow> action list \<Rightarrow> bool" where
  "starts_confirmed ok m [] = True"
| "starts_confirmed ok m (a # as) =
     ((is_start a \<longrightarrow> \<not> started m \<or> ok m) \<and> starts_confirmed ok (observe m a) as)"

text \<open>
  Confirmed stopped, in the words of invariant I2 of the specification: a stop request
  was issued and the exit was observed.
\<close>

definition confirmed_stopped :: "seen \<Rightarrow> bool" where
  "confirmed_stopped m \<longleftrightarrow> stop_called m \<and> exit_seen m"

text \<open>
  What the code waits for: \<^verbatim>\<open>Stop\<close> was called, and the exit was observed unless
  \<^verbatim>\<open>Stop\<close> returned an error.
\<close>

definition stop_attempted :: "seen \<Rightarrow> bool" where
  "stop_attempted m \<longleftrightarrow> stop_called m \<and> (stop_failed m \<or> exit_seen m)"

text \<open>The actions of the control-loop goroutine.\<close>

fun loop_action :: "action \<Rightarrow> bool" where
  "loop_action CallCreateProcess = True"
| "loop_action (CallStart r) = True"
| "loop_action (CallStop r) = True"
| "loop_action CallRebuild = True"
| "loop_action RecvAbort = True"
| "loop_action RecvRestart = True"
| "loop_action (RecvDone v) = True"
| "loop_action _ = False"

text \<open>
  \<open>after_abort tr\<close>: what the control loop does in \<open>tr\<close> after it has taken the abort
  case for the first time.
\<close>

definition after_abort :: "action list \<Rightarrow> action list" where
  "after_abort tr = filter loop_action (drop 1 (dropWhile (\<lambda>a. a \<noteq> RecvAbort) tr))"

text \<open>
  Teardown: one call of \<^verbatim>\<open>Stop\<close> and, only if it returned nil, one receive from
  \<^verbatim>\<open>done\<close>; nothing else.
\<close>

fun teardown :: "action list \<Rightarrow> bool" where
  "teardown [CallStop r] = True"
| "teardown [CallStop None, RecvDone v] = True"
| "teardown _ = False"

text \<open>\<open>only_teardown tr\<close>: once the loop has taken the abort case, teardown is all it does.\<close>

definition only_teardown :: "action list \<Rightarrow> bool" where
  "only_teardown tr \<longleftrightarrow> RecvAbort \<notin> set tr \<or> teardown (after_abort tr)"

text \<open>
  A change notification offered to the relay; \<open>received\<close> counts those of a schedule
  that the relay receives, which it does when it stands at its \<^verbatim>\<open>select\<close>.
\<close>

fun is_notification :: "tick \<Rightarrow> bool" where
  "is_notification (Relay (WatcherEvents (Recv x))) = True"
| "is_notification _ = False"

fun received :: "bool \<Rightarrow> string \<Rightarrow> tick list \<Rightarrow> sys \<Rightarrow> nat" where
  "received watch goos [] s = 0"
| "received watch goos (t # ts) s =
     (if is_notification t \<and> relay s = RSelect then 1 else 0) +
     received watch goos ts (step watch goos t s)"

text \<open>
  \<open>sending s\<close>: the relay stands at the send, holding one notification not yet sent.
  \<open>signals_sent\<close> and \<open>signals_received\<close> count the completed sends and receives on
  \<^verbatim>\<open>restart\<close>.
\<close>

definition sending :: "sys \<Rightarrow> nat" where
  "sending s = (if relay s = RSend then 1 else 0)"

definition signals_sent :: "action list \<Rightarrow> nat" where
  "signals_sent tr = length (filter (\<lambda>a. a = SendRestart) tr)"

definition signals_received :: "action list \<Rightarrow> nat" where
  "signals_received tr = length (filter (\<lambda>a. a = RecvRestart) tr)"

text \<open>The kinds of steps of a schedule.\<close>

fun is_cancel :: "tick \<Rightarrow> bool" where
  "is_cancel (Relay CtxDone) = True"
| "is_cancel _ = False"

fun is_exit :: "tick \<Rightarrow> bool" where
  "is_exit (Exit status) = True"
| "is_exit _ = False"

fun is_loop :: "tick \<Rightarrow> bool" where
  "is_loop (Loop li) = True"
| "is_loop _ = False"

text \<open>
  A step within the quiet window: a change notification offered to the relay, or a run
  of the control loop that has waited less than 50 ms where it stands.
\<close>

fun in_window :: "tick \<Rightarrow> bool" where
  "in_window (Relay (WatcherEvents (Recv x))) = True"
| "in_window (Loop li) = (waited li < 50 * Millisecond)"
| "in_window _ = False"

text \<open>The actions of a stop, rebuild and restart cycle.\<close>

fun cycle_action :: "action \<Rightarrow> bool" where
  "cycle_action CallCreateProcess = True"
| "cycle_action (CallStart r) = True"
| "cycle_action (CallStop r) = True"
| "cycle_action CallRebuild = True"
| "cycle_action (RecvDone v) = True"
| "cycle_action _ = False"

text \<open>
  A quiet window: any steps \<open>seg\<close>, then the loop runs, the relay runs and the loop
  runs again, so that the loop has received every signal sent, then the loop runs any
  number of times more.
\<close>

definition quiet_window :: "tick list \<Rightarrow> loop_in \<Rightarrow> string \<Rightarrow> loop_in \<Rightarrow> loop_in list \<Rightarrow> tick list" where
  "quiet_window seg la x lb idle =
     seg @ [Loop la, Relay (WatcherEvents (Recv x)), Loop lb] @ map Loop idle"

section \<open>Inputs for the examples\<close>

text \<open>
  A Unix machine on which the watcher can be created and takes every path, and on
  which \<^verbatim>\<open>api.Build\<close> returns \<open>res\<close>.
\<close>

definition unix_world :: "BuildResult \<Rightarrow> world" where
  "unix_world res =
     \<lparr>GOOS = ''linux'', IsAbs = (\<lambda>p. take 1 p = ''/''), Join = (\<lambda>dir p. dir @ ''/'' @ p),
      NewWatcher_res = None, watcher_Add = (\<lambda>p. None), Build_res = res\<rparr>"

text \<open>
  The control loop runs; \<^verbatim>\<open>cmd.Start()\<close> would answer \<open>st\<close>, the system call of
  \<^verbatim>\<open>Stop\<close> would answer \<open>k\<close>, a rebuild would succeed, and the goroutine has waited
  \<open>t\<close> nanoseconds where it stands.
\<close>

definition answers :: "error + int \<Rightarrow> error option \<Rightarrow> int \<Rightarrow> loop_in" where
  "answers st k t =
     \<lparr>start_res = st, kill_res = k, rebuild_res = \<lparr>Errors = []\<rparr>, pick = CaseAbort, waited = t\<rparr>"

definition watch_opts :: buildAndWatch where
  "watch_opts = \<lparr>RootDir = ''/repo'', EntryPoints = [''main.ts''], Watch = True\<rparr>"

definition one_shot_opts :: buildAndWatch where
  "one_shot_opts = \<lparr>RootDir = ''/repo'', EntryPoints = [''main.ts''], Watch = False\<rparr>"

section \<open>Invariants of the program\<close>

text \<open>
  After the loop has taken the abort case it is in \<^verbatim>\<open>waitDone()\<close> or has returned
  nil, and \<^verbatim>\<open>Start\<close> has not been called since.
\<close>

definition abort_inv :: "sys \<Rightarrow> bool" where
  "abort_inv s \<longleftrightarrow>
     \<not> start_after RecvAbort (trace s) \<and>
     (RecvAbort \<in> set (trace s) \<longrightarrow> pc s = WaitDone OnAbort \<or> pc s = Returned None)"

text \<open>
  \<^verbatim>\<open>Start\<close> has only been called as \<open>stop_attempted\<close> allows; at the head of the
  loop, if the next process is going to be started, it allows one more call; in the
  \<^verbatim>\<open>waitDone()\<close> of the restart case \<^verbatim>\<open>Stop\<close> has been called.
\<close>

definition start_inv :: "sys \<Rightarrow> bool" where
  "start_inv s \<longleftrightarrow>
     starts_confirmed stop_attempted nothing_seen (trace s) \<and>
     (pc s = Entry \<longrightarrow> \<not> started (foldl observe nothing_seen (trace s))) \<and>
     (pc s = Top \<and> \<not> waitForChange s \<longrightarrow>
        \<not> started (foldl observe nothing_seen (trace s)) \<or>
        stop_attempted (foldl observe nothing_seen (trace s))) \<and>
     (pc s = WaitDone OnRestart \<longrightarrow> stop_called (foldl observe nothing_seen (trace s)))"

text \<open>
  Without watch mode and with a failed build the loop is at its first statement or has
  returned the build error, and no process has been created.
\<close>

definition failed_inv :: "sys \<Rightarrow> bool" where
  "failed_inv s \<longleftrightarrow>
     Errors (result s) \<noteq> [] \<and>
     \<not> list_ex (\<lambda>a. is_start a \<or> a = CallCreateProcess) (trace s) \<and>
     (relay s = CtxWait \<or> relay s = CtxExit) \<and>
     (pc s = Entry \<and> g_err s = None \<or>
      pc s = Returned (Some (Err ''build error'')) \<and> g_err s = Some (Err ''build error''))"

text \<open>
  After the loop has taken the abort case, it has called \<^verbatim>\<open>Stop\<close> and is in
  \<^verbatim>\<open>waitDone()\<close>, or \<^verbatim>\<open>Stop\<close> has failed and it has returned nil, or it has received
  from \<^verbatim>\<open>done\<close> and has returned nil.
\<close>

definition teardown_inv :: "sys \<Rightarrow> bool" where
  "teardown_inv s \<longleftrightarrow>
     RecvAbort \<notin> set (trace s) \<or>
     after_abort (trace s) = [CallStop None] \<and> pc s = WaitDone OnAbort \<or>
     (\<exists>e. after_abort (trace s) = [CallStop (Some e)]) \<and> pc s = Returned None \<or>
     (\<exists>v. after_abort (trace s) = [CallStop None, RecvDone v]) \<and> pc s = Returned None"

text \<open>
  Without watch mode, with a successful build and without cancellation: where the loop
  stands, what it has done so far, and that a status it has received is one of the
  statuses \<open>X\<close> with which the child has exited.
\<close>

definition one_shot_inv :: "error option set \<Rightarrow> sys \<Rightarrow> bool" where
  "one_shot_inv X s \<longleftrightarrow>
     \<not> abort_ch s \<and> restart_ch s = 0 \<and> relay s = CtxWait \<and> Errors (result s) = [] \<and>
     (case pc s of
        Entry \<Rightarrow> g_err s = None \<and> trace s = [CallBuild]
      | Top \<Rightarrow> \<not> waitForChange s \<and> g_err s = None \<and> trace s = [CallBuild]
      | Select \<Rightarrow>
          g_err s = None \<and> trace s = [CallBuild, CallCreateProcess, CallStart None] \<and>
          (case done_ch s of
             Sender \<Rightarrow> cmd_Process (proc s) \<noteq> None
           | Full v \<Rightarrow> v \<in> X
           | NoSender \<Rightarrow> False)
      | Returned r \<Rightarrow>
          g_err s = r \<and>
          (r \<noteq> None \<and> trace s = [CallBuild, CallCreateProcess, CallStart r] \<or>
           r \<in> X \<and> trace s = [CallBuild, CallCreateProcess, CallStart None, RecvDone r])
      | _ \<Rightarrow> False)"

text \<open>
  In the quiet window the process \<open>pid\<close> runs, the loop is at one of its two
  \<^verbatim>\<open>select\<close>s, no cycle has begun since the first start, and every signal sent has
  been received or is in the channel.
\<close>

definition window_inv :: "int \<Rightarrow> sys \<Rightarrow> bool" where
  "window_inv pid s \<longleftrightarrow>
     \<not> abort_ch s \<and> done_ch s = Sender \<and> cmd_Process (proc s) = Some pid \<and>
     (pc s = Select \<or> pc s = Debounce \<and> 1 \<le> signals_received (trace s)) \<and>
     (relay s = RSelect \<or> relay s = RSend) \<and> restart_ch s \<le> 1 \<and>
     filter cycle_action (trace s) = [CallCreateProcess, CallStart None] \<and>
     signals_received (trace s) + restart_ch s = signals_sent (trace s)"

section \<open>Auxiliary facts\<close>

lemma exec_append: "exec w g (xs @ ys) s = exec w g ys (exec w g xs s)"
  by (induction xs arbitrary: s) simp_all

lemma add_entrypoints_trace:
  "add_entrypoints w root es = (r, tr) \<Longrightarrow> \<exists>ps. tr = map WatcherAdd ps"
proof (induction es arbitrary: r tr)
  case Nil
  then show ?case by simp
next
  case (Cons e es)
  show ?case
  proof (cases "watcher_Add w (abs_entrypoint w root e)")
    case None
    obtain r' tr' where rec: "add_entrypoints w root es = (r', tr')"
      by (cases "add_entrypoints w root es")
    from Cons.IH [OF rec] obtain ps where "tr' = map WatcherAdd ps" ..
    with Cons.prems None rec
    have "tr = map WatcherAdd (abs_entrypoint w root e # ps)" by (simp add: Let_def)
    then show ?thesis ..
  next
    case (Some err)
    with Cons.prems have "tr = map WatcherAdd [abs_entrypoint w root e]" by (simp add: Let_def)
    then show ?thesis ..
  qed
qed

lemma observe_setup: "foldl observe m (map WatcherAdd ps) = m"
  by (induction ps) simp_all

lemma starts_confirmed_setup: "starts_confirmed ok m (map WatcherAdd ps)"
  by (induction ps) simp_all

lemma starts_confirmed_append:
  "starts_confirmed ok m (xs @ ys) =
     (starts_confirmed ok m xs \<and> starts_confirmed ok (foldl observe m xs) ys)"
  by (induction xs arbitrary: m) auto

lemma start_after_append:
  "start_after a (xs @ ys) =
     (start_after a xs \<or> start_after a ys \<or> (a \<in> set xs \<and> list_ex is_start ys))"
  by (induction xs) (auto simp: list_ex_iff)

lemma start_after_setup: "\<not> start_after a (map WatcherAdd ps)"
  by (induction ps) (auto simp: list_ex_iff)

subsection \<open>The invariants hold\<close>

lemma abort_inv_loop: "abort_inv s \<Longrightarrow> abort_inv (loop_step w g li s)"
  unfolding abort_inv_def
  by (cases "pc s")
     (auto simp: loop_step_def entry_def top_def after_def wait_done_def
        stop_then_def select_step_def debounce_step_def loop_return_def group_return_def emit_def
        start_after_append Start_def Stop_def Let_def
        split: option.splits select_case.splits done_chan.splits branch.splits sum.splits
          if_splits prod.splits)

lemma abort_inv_relay: "abort_inv s \<Longrightarrow> abort_inv (relay_step rin s)"
  unfolding abort_inv_def
  by (auto simp: relay_step_def send_restart_def close_abort_def relay_return_def
        group_return_def emit_def start_after_append
        split: relay_pc.splits relay_in.splits recv.splits)

lemma abort_inv_exit: "abort_inv s \<Longrightarrow> abort_inv (proc_exit st s)"
  unfolding abort_inv_def by (auto simp: proc_exit_def split: done_chan.splits)

lemma abort_inv_exec: "abort_inv s \<Longrightarrow> abort_inv (exec w g ts s)"
  by (induction ts arbitrary: s)
     (auto simp: step_def abort_inv_loop abort_inv_relay abort_inv_exit split: tick.splits)

lemma abort_inv_init:
  "abort_inv (init wt res [])" "abort_inv (init wt res (NewWatcher # map WatcherAdd ps))"
  by (auto simp: abort_inv_def init_def start_after_append start_after_setup)

lemma start_inv_loop: "start_inv s \<Longrightarrow> start_inv (loop_step w g li s)"
  unfolding start_inv_def
  by (cases "pc s")
     (auto simp: loop_step_def entry_def top_def after_def wait_done_def
        stop_then_def select_step_def debounce_step_def loop_return_def group_return_def emit_def
        starts_confirmed_append Start_def Stop_def Let_def stop_attempted_def
        split: option.splits select_case.splits done_chan.splits branch.splits sum.splits
          if_splits prod.splits)

lemma start_inv_relay: "start_inv s \<Longrightarrow> start_inv (relay_step rin s)"
  unfolding start_inv_def
  by (auto simp: relay_step_def send_restart_def close_abort_def relay_return_def
        group_return_def emit_def starts_confirmed_append
        split: relay_pc.splits relay_in.splits recv.splits)

lemma start_inv_exit: "start_inv s \<Longrightarrow> start_inv (proc_exit st s)"
  unfolding start_inv_def by (auto simp: proc_exit_def split: done_chan.splits)

lemma start_inv_exec: "start_inv s \<Longrightarrow> start_inv (exec w g ts s)"
  by (induction ts arbitrary: s)
     (auto simp: step_def start_inv_loop start_inv_relay start_inv_exit split: tick.splits)

lemma start_inv_init: "start_inv (init wt res [])" "start_inv (init wt res (NewWatcher # map WatcherAdd ps))"
  by (simp_all add: start_inv_def init_def starts_confirmed_append starts_confirmed_setup
      observe_setup nothing_seen_def)

lemma after_abort_Nil: "after_abort [] = []"
  by (simp add: after_abort_def)

lemma after_abort_Cons:
  "after_abort (x # xs) = (if x = RecvAbort then filter loop_action xs else after_abort xs)"
  by (simp add: after_abort_def)

lemma after_abort_append:
  "after_abort (xs @ ys) =
     (if RecvAbort \<in> set xs then after_abort xs @ filter loop_action ys else after_abort ys)"
  by (induction xs) (auto simp: after_abort_Cons after_abort_Nil)

lemma after_abort_setup: "RecvAbort \<notin> set (map WatcherAdd ps)"
  by (induction ps) auto

lemma teardown_inv_loop: "teardown_inv s \<Longrightarrow> teardown_inv (loop_step w g li s)"
  unfolding teardown_inv_def
  by (cases "pc s")
     (auto simp: loop_step_def entry_def top_def after_def wait_done_def
        stop_then_def select_step_def debounce_step_def loop_return_def group_return_def emit_def
        after_abort_append after_abort_Cons after_abort_Nil Start_def Stop_def Let_def
        split: option.splits select_case.splits done_chan.splits branch.splits sum.splits
          if_splits prod.splits)

lemma teardown_inv_relay: "teardown_inv s \<Longrightarrow> teardown_inv (relay_step rin s)"
  unfolding teardown_inv_def
  by (auto simp: relay_step_def send_restart_def close_abort_def relay_return_def
        group_return_def emit_def after_abort_append after_abort_Cons after_abort_Nil
        split: relay_pc.splits relay_in.splits recv.splits)

lemma teardown_inv_exit: "teardown_inv s \<Longrightarrow> teardown_inv (proc_exit st s)"
  unfolding teardown_inv_def by (auto simp: proc_exit_def split: done_chan.splits)

lemma teardown_inv_exec: "teardown_inv s \<Longrightarrow> teardown_inv (exec w g ts s)"
  by (induction ts arbitrary: s)
     (auto simp: step_def teardown_inv_loop teardown_inv_relay teardown_inv_exit split: tick.splits)

lemma teardown_inv_init:
  "teardown_inv (init wt res [])" "teardown_inv (init wt res (NewWatcher # map WatcherAdd ps))"
  by (auto simp: teardown_inv_def init_def)

lemma teardown_inv_only: "teardown_inv s \<Longrightarrow> only_teardown (trace s) \<and> only_teardown (trace s @ [WatcherClose])"
  by (auto simp: teardown_inv_def only_teardown_def after_abort_append after_abort_Cons
      after_abort_Nil)

lemma failed_inv_step: "failed_inv s \<Longrightarrow> failed_inv (step False g t s)"
  unfolding failed_inv_def
  by (cases t)
     (auto simp: step_def loop_step_def entry_def loop_return_def group_return_def
        relay_step_def close_abort_def emit_def proc_exit_def
        split: relay_in.splits done_chan.splits)

lemma failed_inv_exec: "failed_inv s \<Longrightarrow> failed_inv (exec False g ts s)"
  by (induction ts arbitrary: s) (simp_all add: failed_inv_step)

lemma failed_inv_loop:
  "failed_inv s \<Longrightarrow> pc (step False g (Loop li) s) = Returned (Some (Err ''build error''))"
  unfolding failed_inv_def
  by (auto simp: step_def loop_step_def entry_def loop_return_def group_return_def)

lemma returned_step: "pc s = Returned r \<Longrightarrow> pc (step w g t s) = Returned r"
  by (cases t)
     (auto simp: step_def loop_step_def relay_step_def send_restart_def close_abort_def
        relay_return_def group_return_def emit_def proc_exit_def
        split: relay_pc.splits relay_in.splits recv.splits done_chan.splits)

lemma returned_exec: "pc s = Returned r \<Longrightarrow> pc (exec w g ts s) = Returned r"
  by (induction ts arbitrary: s) (simp_all add: returned_step)

lemma failed_returns:
  "failed_inv s \<Longrightarrow> Loop li \<in> set ts \<Longrightarrow>
   pc (exec False g ts s) = Returned (Some (Err ''build error''))"
proof (induction ts arbitrary: s)
  case Nil
  then show ?case by simp
next
  case (Cons t ts)
  show ?case
  proof (cases "t = Loop li")
    case True
    with Cons.prems(1) show ?thesis by (simp add: failed_inv_loop returned_exec)
  next
    case False
    with Cons.prems(2) have "Loop li \<in> set ts" by simp
    from Cons.IH [OF failed_inv_step [OF Cons.prems(1)] this] show ?thesis by simp
  qed
qed

lemma one_shot_g_err_step:
  "pc s = Returned r \<Longrightarrow> relay s = CtxWait \<or> relay s = CtxExit \<Longrightarrow>
   g_err (step False g t s) = g_err s \<and>
   (relay (step False g t s) = CtxWait \<or> relay (step False g t s) = CtxExit)"
  by (cases t)
     (auto simp: step_def loop_step_def relay_step_def close_abort_def emit_def proc_exit_def
        split: relay_in.splits done_chan.splits)

lemma one_shot_g_err_exec:
  "pc s = Returned r \<Longrightarrow> relay s = CtxWait \<or> relay s = CtxExit \<Longrightarrow>
   g_err (exec False g ts s) = g_err s"
proof (induction ts arbitrary: s)
  case Nil
  then show ?case by simp
next
  case (Cons t ts)
  from one_shot_g_err_step [OF Cons.prems, of g t] returned_step [OF Cons.prems(1), of False g t]
    Cons.IH [of "step False g t s"]
  show ?case by simp
qed

lemma one_shot_inv_loop:
  assumes "one_shot_inv X s"
  shows "one_shot_inv X (loop_step False g li s)"
proof (cases "pc s")
  case Entry
  with assms show ?thesis
    by (simp add: one_shot_inv_def loop_step_def entry_def)
next
  case Top
  with assms show ?thesis
    by (cases "start_res li")
       (simp_all add: one_shot_inv_def loop_step_def top_def loop_return_def group_return_def
          emit_def Start_def CreateProcess_def Let_def)
next
  case Select
  with assms show ?thesis
    by (cases "done_ch s")
       (simp_all add: one_shot_inv_def loop_step_def select_step_def select_ready_def
          select_choice_def loop_return_def group_return_def emit_def)
next
  case Debounce
  with assms show ?thesis by (simp add: one_shot_inv_def)
next
  case (WaitDone b)
  with assms show ?thesis by (simp add: one_shot_inv_def)
next
  case (Returned r)
  with assms show ?thesis by (simp add: one_shot_inv_def loop_step_def)
qed

lemma one_shot_inv_mono: "one_shot_inv X s \<Longrightarrow> X \<subseteq> Y \<Longrightarrow> one_shot_inv Y s"
  unfolding one_shot_inv_def
  by (cases "pc s"; cases "done_ch s") auto

lemma one_shot_inv_step:
  assumes "one_shot_inv X s" "\<not> is_cancel t"
  shows "one_shot_inv (X \<union> {v. t = Exit v}) (step False g t s)"
proof (cases t)
  case (Loop li)
  have "one_shot_inv X (loop_step False g li s)" by (rule one_shot_inv_loop [OF assms(1)])
  then have "one_shot_inv (X \<union> {v. t = Exit v}) (loop_step False g li s)"
    by (rule one_shot_inv_mono) simp
  with Loop show ?thesis by (simp add: step_def)
next
  case (Relay rin)
  with assms have "step False g t s = s"
    by (cases rin) (simp_all add: step_def relay_step_def one_shot_inv_def)
  with one_shot_inv_mono [OF assms(1), of "X \<union> {v. t = Exit v}"] show ?thesis by simp
next
  case (Exit st)
  with assms(1) show ?thesis
    unfolding one_shot_inv_def
    by (cases "pc s"; cases "done_ch s") (auto simp: step_def proc_exit_def Wait_def)
qed

lemma one_shot_inv_exec:
  "one_shot_inv X s \<Longrightarrow> \<forall>t\<in>set ts. \<not> is_cancel t \<Longrightarrow>
   one_shot_inv (X \<union> {v. Exit v \<in> set ts}) (exec False g ts s)"
proof (induction ts arbitrary: X s)
  case Nil
  then show ?case by simp
next
  case (Cons t ts)
  from Cons.prems have c: "\<not> is_cancel t" and cs: "\<forall>t\<in>set ts. \<not> is_cancel t" by simp_all
  have "one_shot_inv (X \<union> {v. t = Exit v} \<union> {v. Exit v \<in> set ts})
      (exec False g ts (step False g t s))"
    by (rule Cons.IH [OF one_shot_inv_step [OF Cons.prems(1) c] cs])
  moreover have "X \<union> {v. t = Exit v} \<union> {v. Exit v \<in> set ts} \<subseteq> X \<union> {v. Exit v \<in> set (t # ts)}"
    by auto
  ultimately show ?case unfolding exec.simps by (rule one_shot_inv_mono)
qed

lemma one_shot_blocked:
  assumes "pc s = Select" "\<not> abort_ch s" "restart_ch s = 0" "relay s = CtxWait"
    and "done_ch s = Sender" "\<forall>t\<in>set ts. \<not> is_exit t \<and> \<not> is_cancel t"
  shows "exec False g ts s = s"
  using assms(6)
proof (induction ts)
  case Nil
  then show ?case by simp
next
  case (Cons t ts)
  have "step False g t s = s"
    using Cons.prems assms(1-5)
    by (cases t rule: is_cancel.cases)
       (simp_all add: step_def loop_step_def select_step_def select_ready_def select_choice_def
          relay_step_def)
  with Cons show ?case by simp
qed

lemma one_shot_exited:
  assumes "relay s = CtxWait" "done_ch s = Full v" "\<forall>t\<in>set ts. \<not> is_loop t \<and> \<not> is_cancel t"
  shows "exec False g ts s = s"
  using assms(3)
proof (induction ts)
  case Nil
  then show ?case by simp
next
  case (Cons t ts)
  have "step False g t s = s"
    using Cons.prems assms(1,2)
    by (cases t rule: is_cancel.cases) (simp_all add: step_def relay_step_def proc_exit_def)
  with Cons show ?case by simp
qed

lemma one_shot_started:
  assumes "Errors res = []" "start_res l2 = Inr pid"
  shows "exec False g [Loop l1, Loop l2] (init False res []) =
     \<lparr>abort_ch = False, restart_ch = 0, done_ch = Sender, pc = Select,
      waitForChange = False, result = res, proc = \<lparr>cmd_Process = Some pid\<rparr>,
      relay = CtxWait, g_err = None, effects = [],
      trace = [CallBuild, CallCreateProcess, CallStart None]\<rparr>"
  using assms
  by (simp add: init_def step_def loop_step_def entry_def top_def Start_def CreateProcess_def
        emit_def Let_def)


lemma one_shot_exit_seen:
  assumes "s = \<lparr>abort_ch = False, restart_ch = 0, done_ch = Sender, pc = Select,
      waitForChange = False, result = res, proc = \<lparr>cmd_Process = Some pid\<rparr>,
      relay = CtxWait, g_err = None, effects = [],
      trace = [CallBuild, CallCreateProcess, CallStart None]\<rparr>"
  shows "step False g (Exit status) s = s\<lparr>done_ch := Full status\<rparr>"
    and "step False g (Loop l3) (s\<lparr>done_ch := Full status\<rparr>) =
      s\<lparr>done_ch := NoSender, pc := Returned status, g_err := status,
        trace := [CallBuild, CallCreateProcess, CallStart None, RecvDone status]\<rparr>"
  unfolding assms
  by (cases status;
      simp add: step_def proc_exit_def Wait_def loop_step_def select_step_def select_ready_def
        select_choice_def loop_return_def group_return_def emit_def)+

subsection \<open>A receive from \<^verbatim>\<open>done\<close> without a sender never completes\<close>

lemma stuck_step:
  assumes "pc s = WaitDone b" "done_ch s = NoSender"
  shows "pc (step w g t s) = WaitDone b \<and> done_ch (step w g t s) = NoSender \<and>
         set (trace (step w g t s)) \<subseteq> set (trace s) \<union> {SendRestart, CloseAbort}"
proof (cases t)
  case (Loop li)
  then show ?thesis using assms by (auto simp: step_def loop_step_def wait_done_def)
next
  case (Relay rin)
  then show ?thesis using assms
    by (auto simp: step_def relay_step_def send_restart_def close_abort_def relay_return_def
        group_return_def emit_def split: relay_pc.splits relay_in.splits recv.splits)
next
  case (Exit st)
  then show ?thesis using assms by (auto simp: step_def proc_exit_def)
qed

lemma stuck_exec:
  "pc s = WaitDone b \<Longrightarrow> done_ch s = NoSender \<Longrightarrow>
   pc (exec w g ts s) = WaitDone b \<and> done_ch (exec w g ts s) = NoSender \<and>
   set (trace (exec w g ts s)) \<subseteq> set (trace s) \<union> {SendRestart, CloseAbort}"
proof (induction ts arbitrary: s)
  case Nil
  then show ?case by auto
next
  case (Cons t ts)
  from stuck_step [OF Cons.prems, of w g t]
  have a: "pc (step w g t s) = WaitDone b" and b: "done_ch (step w g t s) = NoSender"
    and c: "set (trace (step w g t s)) \<subseteq> set (trace s) \<union> {SendRestart, CloseAbort}"
    by simp_all
  from Cons.IH [OF a b] c show ?case by auto
qed

lemma Run_watch_stuck:
  assumes "Watch opts" "NewWatcher_res w = None"
    and "add_entrypoints w (RootDir opts) (EntryPoints opts) = (None, tr)"
    and "pc (exec True (GOOS w) pre (init True (Build_res w) (NewWatcher # tr))) = WaitDone b"
    and "done_ch (exec True (GOOS w) pre (init True (Build_res w) (NewWatcher # tr))) = NoSender"
  shows "fst (Run opts w (pre @ rest)) = Pending \<and>
         set (snd (Run opts w (pre @ rest))) \<subseteq>
           set (trace (exec True (GOOS w) pre (init True (Build_res w) (NewWatcher # tr)))) \<union>
           {SendRestart, CloseAbort}"
  using assms(1-3) stuck_exec [OF assms(4,5), of True "GOOS w" rest]
  by (simp add: Run_def exec_append g_Wait_def Let_def)

subsection \<open>In watch mode no goroutine returns an error\<close>

lemma watch_g_err_step: "g_err s = None \<Longrightarrow> g_err (step True g t s) = None"
  by (cases t; cases "pc s")
     (auto simp: step_def loop_step_def entry_def top_def after_def wait_done_def
        stop_then_def select_step_def debounce_step_def loop_return_def group_return_def emit_def
        Start_def Stop_def Let_def relay_step_def send_restart_def close_abort_def
        relay_return_def proc_exit_def
        split: option.splits select_case.splits done_chan.splits branch.splits sum.splits
          if_splits prod.splits relay_pc.splits relay_in.splits recv.splits)

lemma watch_g_err_exec: "g_err s = None \<Longrightarrow> g_err (exec True g ts s) = None"
  by (induction ts arbitrary: s) (simp_all add: watch_g_err_step)

lemma Run_watch_returns_nil:
  assumes "Watch opts" "NewWatcher_res w = None"
    and "add_entrypoints w (RootDir opts) (EntryPoints opts) = (None, tr)"
  shows "fst (Run opts w sched) = Pending \<or> fst (Run opts w sched) = Returns None"
proof -
  have "g_err (exec True (GOOS w) sched (init True (Build_res w) (NewWatcher # tr))) = None"
    by (rule watch_g_err_exec) (simp add: init_def)
  with assms show ?thesis
    by (auto simp: Run_def Let_def g_Wait_def split: loop_pc.splits relay_pc.splits)
qed

subsection \<open>Registering the entry points\<close>

lemma add_entrypoints_fails:
  "e \<in> set es \<Longrightarrow> watcher_Add w (abs_entrypoint w root e) \<noteq> None \<Longrightarrow>
   \<exists>p err ps. add_entrypoints w root es = (Some (Watching p err), map WatcherAdd ps) \<and>
     watcher_Add w p = Some err \<and> p \<in> abs_entrypoint w root ` set es"
proof (induction es)
  case Nil
  then show ?case by simp
next
  case (Cons x es)
  show ?case
  proof (cases "watcher_Add w (abs_entrypoint w root x)")
    case (Some err)
    then have "add_entrypoints w root (x # es) =
        (Some (Watching (abs_entrypoint w root x) err), map WatcherAdd [abs_entrypoint w root x])"
      by (simp add: Let_def)
    moreover have "abs_entrypoint w root x \<in> abs_entrypoint w root ` set (x # es)" by simp
    ultimately show ?thesis using Some by blast
  next
    case None
    with Cons.prems have "e \<in> set es" by auto
    from Cons.IH [OF this Cons.prems(2)] obtain p err ps where
      r: "add_entrypoints w root es = (Some (Watching p err), map WatcherAdd ps)"
      and a: "watcher_Add w p = Some err" and m: "p \<in> abs_entrypoint w root ` set es"
      by blast
    from None r have "add_entrypoints w root (x # es) =
        (Some (Watching p err), map WatcherAdd (abs_entrypoint w root x # ps))"
      by (simp add: Let_def)
    moreover from m have "p \<in> abs_entrypoint w root ` set (x # es)" by auto
    ultimately show ?thesis using a by blast
  qed
qed

subsection \<open>Signals sent and notifications received\<close>

lemma sent_loop:
  "signals_sent (trace (loop_step w g li s)) = signals_sent (trace s) \<and>
   relay (loop_step w g li s) = relay s"
  by (cases "pc s")
     (auto simp: signals_sent_def loop_step_def entry_def top_def after_def wait_done_def
        stop_then_def select_step_def debounce_step_def loop_return_def group_return_def emit_def
        Start_def Stop_def Let_def
        split: option.splits select_case.splits done_chan.splits branch.splits sum.splits
          if_splits prod.splits)

lemma sent_step:
  "signals_sent (trace (step w g t s)) + sending (step w g t s) =
   signals_sent (trace s) + sending s + (if is_notification t \<and> relay s = RSelect then 1 else 0)"
proof (cases t)
  case (Loop li)
  then show ?thesis using sent_loop [of w g li s] by (simp add: step_def sending_def)
next
  case (Relay rin)
  then show ?thesis
    by (cases rin; cases "relay s")
       (auto simp: step_def signals_sent_def sending_def relay_step_def send_restart_def
          close_abort_def relay_return_def group_return_def emit_def split: recv.splits)
next
  case (Exit st)
  then show ?thesis
    by (simp add: step_def signals_sent_def sending_def proc_exit_def split: done_chan.splits)
qed

lemma sent_exec:
  "signals_sent (trace (exec w g ts s)) + sending (exec w g ts s) =
   signals_sent (trace s) + sending s + received w g ts s"
proof (induction ts arbitrary: s)
  case Nil
  then show ?case by simp
next
  case (Cons t ts)
  from Cons.IH [of "step w g t s"] sent_step [of w g t s] show ?case by simp
qed

subsection \<open>The quiet window\<close>

lemma select_choice_one [simp]: "select_choice p [c] = Some c" "select_choice p [] = None"
  by (simp_all add: select_choice_def)

lemma window_inv_step:
  assumes "window_inv pid s" "in_window t"
  shows "window_inv pid (step True g t s)"
proof (cases t rule: in_window.cases)
  case (1 x)
  from assms(1) have "restart_ch s = 0 \<or> restart_ch s = 1"
    unfolding window_inv_def by auto
  with assms(1) 1 show ?thesis
    unfolding window_inv_def
    by (auto simp: step_def relay_step_def send_restart_def restart_cap_def emit_def
        signals_sent_def signals_received_def)
next
  case (2 li)
  with assms have w: "waited li < 50 * Millisecond" by simp
  from assms(1) have "restart_ch s = 0 \<or> restart_ch s = 1"
    unfolding window_inv_def by auto
  with assms(1) w 2 show ?thesis
    unfolding window_inv_def
    by (auto simp: step_def loop_step_def select_step_def select_ready_def
        debounce_step_def emit_def signals_sent_def signals_received_def Let_def)
qed (use assms(2) in simp_all)

lemma window_inv_exec:
  "window_inv pid s \<Longrightarrow> \<forall>t\<in>set ts. in_window t \<Longrightarrow> window_inv pid (exec True g ts s)"
  by (induction ts arbitrary: s) (simp_all add: window_inv_step)

lemma window_drained:
  assumes "window_inv pid s" "waited la < 50 * Millisecond" "waited lb < 50 * Millisecond"
  shows "pc (exec True g [Loop la, Relay (WatcherEvents (Recv x)), Loop lb] s) = Debounce \<and>
         restart_ch (exec True g [Loop la, Relay (WatcherEvents (Recv x)), Loop lb] s) = 0 \<and>
         relay (exec True g [Loop la, Relay (WatcherEvents (Recv x)), Loop lb] s) = RSelect"
proof -
  from assms(1) have r: "restart_ch s = 0 \<or> restart_ch s = 1"
    unfolding window_inv_def by auto
  from assms(1) have p: "pc s = Select \<or> pc s = Debounce"
    and q: "relay s = RSelect \<or> relay s = RSend"
    and a: "\<not> abort_ch s" "done_ch s = Sender"
    unfolding window_inv_def by auto
  from r p q a assms(2,3) show ?thesis
    by (elim disjE)
       (simp_all add: step_def loop_step_def select_step_def select_ready_def
          debounce_step_def emit_def relay_step_def send_restart_def restart_cap_def Let_def)
qed

lemma idle_debounce:
  "pc s = Debounce \<Longrightarrow> restart_ch s = 0 \<Longrightarrow> \<forall>li\<in>set idle. waited li < 50 * Millisecond \<Longrightarrow>
   exec w g (map Loop idle) s = s"
  by (induction idle) (simp_all add: step_def loop_step_def debounce_step_def Let_def)

lemma watch_started:
  assumes "Errors res = []" "start_res l2 = Inr pid"
  shows "exec True g [Loop l1, Loop l2] (init True res tr) =
     \<lparr>abort_ch = False, restart_ch = 0, done_ch = Sender, pc = Select,
      waitForChange = False, result = res, proc = \<lparr>cmd_Process = Some pid\<rparr>,
      relay = RSelect, g_err = None, effects = [],
      trace = tr @ [CallBuild, CallCreateProcess, CallStart None]\<rparr>"
  using assms
  by (simp add: init_def step_def loop_step_def entry_def top_def Start_def CreateProcess_def
        emit_def Let_def)

lemma setup_no_cycle:
  "filter cycle_action (map WatcherAdd ps) = []"
  "signals_sent (map WatcherAdd ps) = 0" "signals_received (map WatcherAdd ps) = 0"
  by (induction ps) (simp_all add: signals_sent_def signals_received_def)

lemma one_cycle:
  assumes "pc s = Debounce" "restart_ch s = 0" "done_ch s = Sender"
    and "cmd_Process (proc s) = Some pid"
    and "50 * Millisecond \<le> waited l4" "kill_res l4 = None"
    and "Errors (rebuild_res l5) = []" "start_res l6 = Inr pid'"
  shows "pc (exec True g [Loop l4, Exit status, Loop l5, Loop l6] s) = Select \<and>
     relay (exec True g [Loop l4, Exit status, Loop l5, Loop l6] s) = relay s \<and>
     trace (exec True g [Loop l4, Exit status, Loop l5, Loop l6] s) =
       trace s @ [CallStop None, RecvDone status, CallRebuild, CallCreateProcess, CallStart None]"
  using assms
  by (cases s)
     (simp add: step_def loop_step_def debounce_step_def stop_then_def Stop_def wait_done_def
        after_def top_def Start_def CreateProcess_def emit_def proc_exit_def Wait_def Let_def)

section \<open>Properties of the relay\<close>

text \<open>
  C1. The specification lets an error event of the notification source raise
  AbortSignal and come back from \<^verbatim>\<open>Run\<close>. The code does not: in watch mode, with a
  successful build and a running process, an error delivered on \<^verbatim>\<open>watcher.Errors\<close>
  changes nothing (\<^verbatim>\<open>abort\<close> stays open, \<^verbatim>\<open>Run\<close> does not return); and when
  \<^verbatim>\<open>watcher.Errors\<close> is closed, the relay closes \<^verbatim>\<open>abort\<close> and returns the nil
  error it received, so that \<^verbatim>\<open>Run\<close> returns nil.
\<close>

theorem watcher_error_not_surfaced:
  "Run watch_opts (unix_world \<lparr>Errors = []\<rparr>)
     [Loop (answers (Inr 100) None 0), Loop (answers (Inr 100) None 0),
      Relay (WatcherErrors (Recv (Err ''too many open files''))),
      Loop (answers (Inr 100) None 0)] =
     (Pending, [NewWatcher, WatcherAdd ''/repo/main.ts'', CallBuild, CallCreateProcess,
                CallStart None]) \<and>
   Run watch_opts (unix_world \<lparr>Errors = []\<rparr>)
     [Loop (answers (Inr 100) None 0), Loop (answers (Inr 100) None 0),
      Relay (WatcherErrors Closed),
      Loop (answers (Inr 100) None 0), Exit None, Loop (answers (Inr 100) None 0)] =
     (Returns None, [NewWatcher, WatcherAdd ''/repo/main.ts'', CallBuild, CallCreateProcess,
                CallStart None, CloseAbort, RecvAbort, CallStop None, RecvDone None,
                WatcherClose])"
  by code_simp

text \<open>
  C2, as the code has it. The send on \<^verbatim>\<open>restart\<close> is a plain send, which blocks.
  A change notification that finds no signal pending is sent at once. One that finds a
  signal pending takes the relay to the send, where it stays, whatever its
  \<^verbatim>\<open>select\<close> could receive, as long as the signal is pending; once the pending signal
  has been received, the send completes. No notification is dropped: in every run from
  every state, the notifications the relay receives are as many as the signals it
  sends, counting the one it stands sending.
\<close>

theorem pending_restart_blocks_relay:
  "(relay s = RSelect \<and> restart_ch s < restart_cap \<longrightarrow>
      relay_step (WatcherEvents (Recv x)) s =
        emit SendRestart (s\<lparr>restart_ch := restart_ch s + 1, relay := RSelect\<rparr>)) \<and>
   (relay s = RSelect \<and> restart_ch s = restart_cap \<longrightarrow>
      relay_step (WatcherEvents (Recv x)) s = s\<lparr>relay := RSend\<rparr>) \<and>
   (relay s = RSend \<and> restart_ch s = restart_cap \<longrightarrow> relay_step rin s = s) \<and>
   (relay s = RSend \<and> restart_ch s < restart_cap \<longrightarrow>
      relay_step rin s = emit SendRestart (s\<lparr>restart_ch := restart_ch s + 1, relay := RSelect\<rparr>)) \<and>
   signals_sent (trace (exec watch goos sched s)) + sending (exec watch goos sched s) =
     signals_sent (trace s) + sending s + received watch goos sched s"
  using sent_exec [of watch goos sched s] by (simp add: relay_step_def send_restart_def)

theorem pending_restart_blocks_relay_witness:
  "relay_step (WatcherEvents (Recv ''/repo/main.ts'')) (init True \<lparr>Errors = []\<rparr> []) =
     (init True \<lparr>Errors = []\<rparr> [])\<lparr>restart_ch := 1, trace := [CallBuild, SendRestart]\<rparr> \<and>
   relay_step (WatcherEvents (Recv ''/repo/main.ts''))
     ((init True \<lparr>Errors = []\<rparr> [])\<lparr>restart_ch := 1\<rparr>) =
     (init True \<lparr>Errors = []\<rparr> [])\<lparr>restart_ch := 1, relay := RSend\<rparr> \<and>
   relay_step CtxDone ((init True \<lparr>Errors = []\<rparr> [])\<lparr>restart_ch := 1, relay := RSend\<rparr>) =
     (init True \<lparr>Errors = []\<rparr> [])\<lparr>restart_ch := 1, relay := RSend\<rparr> \<and>
   relay_step CtxDone ((init True \<lparr>Errors = []\<rparr> [])\<lparr>restart_ch := 0, relay := RSend\<rparr>) =
     (init True \<lparr>Errors = []\<rparr> [])\<lparr>restart_ch := 1, relay := RSelect, trace := [CallBuild, SendRestart]\<rparr> \<and>
   received True ''linux''
     [Relay (WatcherEvents (Recv ''/repo/a.ts'')), Relay (WatcherEvents (Recv ''/repo/b.ts'')),
      Loop (answers (Inr 100) None 0), Loop (answers (Inr 100) None 0),
      Loop (answers (Inr 100) None 0), Relay (WatcherEvents (Recv ''/repo/c.ts'')),
      Relay (WatcherEvents (Recv ''/repo/c.ts''))]
     (init True \<lparr>Errors = []\<rparr> []) = 3 \<and>
   signals_sent (trace (exec True ''linux''
     [Relay (WatcherEvents (Recv ''/repo/a.ts'')), Relay (WatcherEvents (Recv ''/repo/b.ts'')),
      Loop (answers (Inr 100) None 0), Loop (answers (Inr 100) None 0),
      Loop (answers (Inr 100) None 0), Relay (WatcherEvents (Recv ''/repo/c.ts'')),
      Relay (WatcherEvents (Recv ''/repo/c.ts''))]
     (init True \<lparr>Errors = []\<rparr> []))) = 2 \<and>
   sending (exec True ''linux''
     [Relay (WatcherEvents (Recv ''/repo/a.ts'')), Relay (WatcherEvents (Recv ''/repo/b.ts'')),
      Loop (answers (Inr 100) None 0), Loop (answers (Inr 100) None 0),
      Loop (answers (Inr 100) None 0), Relay (WatcherEvents (Recv ''/repo/c.ts'')),
      Relay (WatcherEvents (Recv ''/repo/c.ts''))]
     (init True \<lparr>Errors = []\<rparr> [])) = 1"
proof -
  let ?s0 = "init True \<lparr>Errors = []\<rparr> []"
  let ?sched = "[Relay (WatcherEvents (Recv ''/repo/a.ts'')), Relay (WatcherEvents (Recv ''/repo/b.ts'')),
      Loop (answers (Inr 100) None 0), Loop (answers (Inr 100) None 0),
      Loop (answers (Inr 100) None 0), Relay (WatcherEvents (Recv ''/repo/c.ts'')),
      Relay (WatcherEvents (Recv ''/repo/c.ts''))]"
  have r: "received True ''linux'' ?sched ?s0 = 3" by code_simp
  have z: "signals_sent (trace ?s0) = 0" "sending ?s0 = 0" by code_simp+
  have d: "sending (exec True ''linux'' ?sched ?s0) = 1" by code_simp
  have n: "signals_sent (trace (exec True ''linux'' ?sched ?s0)) = 2"
    using pending_restart_blocks_relay
      [where s = ?s0 and watch = True and goos = "''linux''" and sched = ?sched]
    unfolding r z d by simp
  have steps: "relay_step (WatcherEvents (Recv ''/repo/main.ts'')) ?s0 =
       ?s0\<lparr>restart_ch := 1, trace := [CallBuild, SendRestart]\<rparr> \<and>
     relay_step (WatcherEvents (Recv ''/repo/main.ts'')) (?s0\<lparr>restart_ch := 1\<rparr>) =
       ?s0\<lparr>restart_ch := 1, relay := RSend\<rparr> \<and>
     relay_step CtxDone (?s0\<lparr>restart_ch := 1, relay := RSend\<rparr>) =
       ?s0\<lparr>restart_ch := 1, relay := RSend\<rparr> \<and>
     relay_step CtxDone (?s0\<lparr>restart_ch := 0, relay := RSend\<rparr>) =
       ?s0\<lparr>restart_ch := 1, relay := RSelect, trace := [CallBuild, SendRestart]\<rparr>"
    using pending_restart_blocks_relay [where s = ?s0 and x = "''/repo/main.ts''"]
      pending_restart_blocks_relay [where s = "?s0\<lparr>restart_ch := 1\<rparr>" and x = "''/repo/main.ts''"]
      pending_restart_blocks_relay
        [where s = "?s0\<lparr>restart_ch := 1, relay := RSend\<rparr>" and rin = CtxDone]
      pending_restart_blocks_relay
        [where s = "?s0\<lparr>restart_ch := 0, relay := RSend\<rparr>" and rin = CtxDone]
    by (simp add: init_def restart_cap_def emit_def)
  from steps r n d show ?thesis by blast
qed

text \<open>
  C2 as the specification states it (a notification that finds a signal pending is
  dropped and the relay does not block) fails: after two notifications the relay is at
  the send; a third one and a cancellation are not received; and when the loop has
  received the first signal, the second one is sent.
\<close>

theorem relay_blocked_by_pending_restart:
  "relay (exec True ''linux''
       [Loop (answers (Inr 100) None 0), Loop (answers (Inr 100) None 0),
        Relay (WatcherEvents (Recv ''/repo/a.ts'')), Relay (WatcherEvents (Recv ''/repo/b.ts''))]
       (init True \<lparr>Errors = []\<rparr> [])) = RSend \<and>
   trace (exec True ''linux''
       [Loop (answers (Inr 100) None 0), Loop (answers (Inr 100) None 0),
        Relay (WatcherEvents (Recv ''/repo/a.ts'')), Relay (WatcherEvents (Recv ''/repo/b.ts'')),
        Relay (WatcherEvents (Recv ''/repo/c.ts''))]
       (init True \<lparr>Errors = []\<rparr> [])) =
     [CallBuild, CallCreateProcess, CallStart None, SendRestart] \<and>
   trace (exec True ''linux''
       [Loop (answers (Inr 100) None 0), Loop (answers (Inr 100) None 0),
        Relay (WatcherEvents (Recv ''/repo/a.ts'')), Relay (WatcherEvents (Recv ''/repo/b.ts'')),
        Loop (answers (Inr 100) None 0), Relay (WatcherEvents (Recv ''/repo/c.ts''))]
       (init True \<lparr>Errors = []\<rparr> [])) =
     [CallBuild, CallCreateProcess, CallStart None, SendRestart, RecvRestart, SendRestart]"
  by code_simp

section \<open>Properties of the control loop\<close>

text \<open>
  C3. The specification lets a restart signal after a failed build lead to a fresh
  build. The code does not: in watch mode, after a failed first build and one change
  notification, the loop waits its 50 ms, calls \<^verbatim>\<open>Stop\<close> on the process it never
  started, which returns nil, and then \<^verbatim>\<open>waitDone()\<close>, which receives from a
  \<^verbatim>\<open>done\<close> that has no sender. Whatever happens afterwards (\<open>rest\<close>),
  \<^verbatim>\<open>Rebuild\<close> is never called and \<^verbatim>\<open>Run\<close> does not return.
\<close>

theorem watch_build_failure_restart_hangs:
  "fst (Run watch_opts (unix_world \<lparr>Errors = [''syntax error'']\<rparr>)
          ([Loop (answers (Inr 100) None 0), Loop (answers (Inr 100) None 0),
            Relay (WatcherEvents (Recv ''/repo/main.ts'')),
            Loop (answers (Inr 100) None 0),
            Loop (answers (Inr 100) None (50 * Millisecond))] @ rest)) = Pending \<and>
   CallRebuild \<notin> set (snd (Run watch_opts (unix_world \<lparr>Errors = [''syntax error'']\<rparr>)
          ([Loop (answers (Inr 100) None 0), Loop (answers (Inr 100) None 0),
            Relay (WatcherEvents (Recv ''/repo/main.ts'')),
            Loop (answers (Inr 100) None 0),
            Loop (answers (Inr 100) None (50 * Millisecond))] @ rest)))"
proof -
  let ?w = "unix_world \<lparr>Errors = [''syntax error'']\<rparr>"
  let ?pre = "[Loop (answers (Inr 100) None 0), Loop (answers (Inr 100) None 0),
            Relay (WatcherEvents (Recv ''/repo/main.ts'')),
            Loop (answers (Inr 100) None 0),
            Loop (answers (Inr 100) None (50 * Millisecond))]"
  let ?s = "exec True (GOOS ?w) ?pre (init True (Build_res ?w) [NewWatcher, WatcherAdd ''/repo/main.ts''])"
  have wt: "Watch watch_opts" by code_simp
  have nw: "NewWatcher_res ?w = None" by code_simp
  have add: "add_entrypoints ?w (RootDir watch_opts) (EntryPoints watch_opts)
      = (None, [WatcherAdd ''/repo/main.ts''])" by code_simp
  have p: "pc ?s = WaitDone OnRestart" by code_simp
  have d: "done_ch ?s = NoSender" by code_simp
  have t: "trace ?s = [NewWatcher, WatcherAdd ''/repo/main.ts'', CallBuild, CallCreateProcess,
      SendRestart, RecvRestart, CallStop None]" by code_simp
  from Run_watch_stuck [OF wt nw add p d, of rest] show ?thesis
    unfolding t by auto
qed

text \<open>
  C4. The specification lets \<^verbatim>\<open>Run\<close> return nil when the abort comes while no
  process is live. The code does not: in watch mode, after a failed first build and a
  cancellation, the relay closes \<^verbatim>\<open>abort\<close> and returns; the loop takes the abort
  case, calls \<^verbatim>\<open>Stop\<close> on the process it never started, which returns nil, and then
  \<^verbatim>\<open>waitDone()\<close>, which receives from a \<^verbatim>\<open>done\<close> that has no sender. Whatever
  happens afterwards (\<open>rest\<close>), \<^verbatim>\<open>Run\<close> does not return.
\<close>

theorem watch_build_failure_abort_hangs:
  "fst (Run watch_opts (unix_world \<lparr>Errors = [''syntax error'']\<rparr>)
          ([Loop (answers (Inr 100) None 0), Loop (answers (Inr 100) None 0),
            Relay CtxDone, Loop (answers (Inr 100) None 0)] @ rest)) = Pending"
proof -
  let ?w = "unix_world \<lparr>Errors = [''syntax error'']\<rparr>"
  let ?pre = "[Loop (answers (Inr 100) None 0), Loop (answers (Inr 100) None 0),
            Relay CtxDone, Loop (answers (Inr 100) None 0)]"
  let ?s = "exec True (GOOS ?w) ?pre (init True (Build_res ?w) [NewWatcher, WatcherAdd ''/repo/main.ts''])"
  have wt: "Watch watch_opts" by code_simp
  have nw: "NewWatcher_res ?w = None" by code_simp
  have add: "add_entrypoints ?w (RootDir watch_opts) (EntryPoints watch_opts)
      = (None, [WatcherAdd ''/repo/main.ts''])" by code_simp
  have p: "pc ?s = WaitDone OnAbort" by code_simp
  have d: "done_ch ?s = NoSender" by code_simp
  from Run_watch_stuck [OF wt nw add p d, of rest] show ?thesis by simp
qed

text \<open>
  C5, as the code has it. Once the control loop has taken the abort case of its
  \<^verbatim>\<open>select\<close>, in any run of the program, it never calls \<^verbatim>\<open>Start\<close> again and only
  teardown proceeds: of its own actions only one call of \<^verbatim>\<open>Stop\<close> follows and, only
  if that call returned nil, one receive from \<^verbatim>\<open>done\<close>.
\<close>

theorem only_teardown_after_abort_case:
  "\<not> start_after RecvAbort (snd (Run opts w sched)) \<and> only_teardown (snd (Run opts w sched))"
proof -
  have a: "\<not> start_after RecvAbort (trace (exec wt g sched (init wt res [])))" for wt g res
    using abort_inv_exec [OF abort_inv_init(1)] by (simp add: abort_inv_def)
  have b: "\<not> start_after RecvAbort
      (trace (exec wt g sched (init wt res (NewWatcher # map WatcherAdd ps))))" for wt g res ps
    using abort_inv_exec [OF abort_inv_init(2)] by (simp add: abort_inv_def)
  have c: "only_teardown (trace (exec wt g sched (init wt res [])))"
    "only_teardown (trace (exec wt g sched (init wt res [])) @ [WatcherClose])" for wt g res
    using teardown_inv_only [OF teardown_inv_exec [OF teardown_inv_init(1)]] by blast+
  have d: "only_teardown (trace (exec wt g sched (init wt res (NewWatcher # map WatcherAdd ps))))"
    "only_teardown (trace (exec wt g sched (init wt res (NewWatcher # map WatcherAdd ps))) @
       [WatcherClose])" for wt g res ps
    using teardown_inv_only [OF teardown_inv_exec [OF teardown_inv_init(2)]] by blast+
  have e: "only_teardown (NewWatcher # map WatcherAdd ps @ [WatcherClose])"
    "only_teardown [NewWatcher]" for ps
    by (auto simp: only_teardown_def)
  obtain r tr where add: "add_entrypoints w (RootDir opts) (EntryPoints opts) = (r, tr)"
    by (cases "add_entrypoints w (RootDir opts) (EntryPoints opts)")
  from add_entrypoints_trace [OF add] obtain ps where tr: "tr = map WatcherAdd ps" ..
  have 1: "\<not> start_after RecvAbort (snd (Run opts w sched))"
    using a b
    by (auto simp: Run_def add tr Let_def start_after_append start_after_setup
        split: option.splits outcome.splits)
  have 2: "only_teardown (snd (Run opts w sched))"
    using c d e
    by (auto simp: Run_def add tr Let_def split: option.splits outcome.splits)
  from 1 2 show ?thesis ..
qed

theorem only_teardown_after_abort_case_witness:
  "RecvAbort \<in> set (snd (Run watch_opts (unix_world \<lparr>Errors = []\<rparr>)
        [Loop (answers (Inr 100) None 0), Loop (answers (Inr 100) None 0),
         Relay CtxDone, Loop (answers (Inr 100) None 0), Exit None,
         Loop (answers (Inr 100) None 0)])) \<and>
   \<not> start_after RecvAbort (snd (Run watch_opts (unix_world \<lparr>Errors = []\<rparr>)
        [Loop (answers (Inr 100) None 0), Loop (answers (Inr 100) None 0),
         Relay CtxDone, Loop (answers (Inr 100) None 0), Exit None,
         Loop (answers (Inr 100) None 0)])) \<and>
   teardown (after_abort (snd (Run watch_opts (unix_world \<lparr>Errors = []\<rparr>)
        [Loop (answers (Inr 100) None 0), Loop (answers (Inr 100) None 0),
         Relay CtxDone, Loop (answers (Inr 100) None 0), Exit None,
         Loop (answers (Inr 100) None 0)])))"
proof -
  have "RecvAbort \<in> set (snd (Run watch_opts (unix_world \<lparr>Errors = []\<rparr>)
        [Loop (answers (Inr 100) None 0), Loop (answers (Inr 100) None 0),
         Relay CtxDone, Loop (answers (Inr 100) None 0), Exit None,
         Loop (answers (Inr 100) None 0)]))"
    by code_simp
  with only_teardown_after_abort_case [of watch_opts "unix_world \<lparr>Errors = []\<rparr>"
        "[Loop (answers (Inr 100) None 0), Loop (answers (Inr 100) None 0),
         Relay CtxDone, Loop (answers (Inr 100) None 0), Exit None,
         Loop (answers (Inr 100) None 0)]"]
  show ?thesis by (simp add: only_teardown_def)
qed

text \<open>
  C5 as the specification states it (no process is started once \<^verbatim>\<open>abort\<close> is
  closed) fails: the loop looks at \<^verbatim>\<open>abort\<close> only in the \<^verbatim>\<open>select\<close> of line 111.
  Here \<^verbatim>\<open>abort\<close> is closed while the loop absorbs restart signals; the loop goes on
  to stop the process, rebuild, and start the next process.
\<close>

theorem start_after_abort_raised:
  "start_after CloseAbort
     (snd (Run watch_opts (unix_world \<lparr>Errors = []\<rparr>)
        [Loop (answers (Inr 100) None 0), Loop (answers (Inr 100) None 0),
         Relay (WatcherEvents (Recv ''/repo/main.ts'')), Loop (answers (Inr 100) None 0),
         Relay CtxDone,
         Loop (answers (Inr 100) None (50 * Millisecond)), Exit None,
         Loop (answers (Inr 100) None 0), Loop (answers (Inr 101) None 0)]))"
  by code_simp

section \<open>Properties of \<^verbatim>\<open>cmdProcess.Stop\<close>\<close>

text \<open>
  C6. On a process that was never started \<^verbatim>\<open>Stop\<close> does nothing and returns nil. On
  a started process and a platform other than Windows, it starts a goroutine that
  sleeps 5 seconds (5 000 000 000 ns) and then sends SIGKILL to the process group, it
  sends SIGTERM to the process group itself, and it returns the outcome of sending
  SIGTERM: the sleep is in the goroutine, not in \<^verbatim>\<open>Stop\<close>. On Windows it kills the
  single process at once and schedules nothing.
\<close>

theorem Stop_graceful_then_forced:
  "(cmd_Process p = None \<longrightarrow> Stop goos res p = (None, [])) \<and>
   (cmd_Process p = Some pid \<and> goos \<noteq> ''windows'' \<longrightarrow>
      Stop goos res p =
        (res, [Go [Sleep 5000000000, Call (Kill (- pid) SIGKILL)],
               Sys (Kill (- pid) SIGTERM)])) \<and>
   (cmd_Process p = Some pid \<and> goos = ''windows'' \<longrightarrow>
      Stop goos res p = (res, [Sys (ProcessKill pid)]))"
  by (simp add: Stop_def maxProcStopWait_def Second_def Millisecond_def)

theorem Stop_graceful_then_forced_witness:
  "Stop ''linux'' None CreateProcess = (None, []) \<and>
   Stop ''linux'' None \<lparr>cmd_Process = Some 4242\<rparr> =
     (None, [Go [Sleep 5000000000, Call (Kill (- 4242) SIGKILL)],
             Sys (Kill (- 4242) SIGTERM)]) \<and>
   Stop ''windows'' (Some (Err ''access denied'')) \<lparr>cmd_Process = Some 4242\<rparr> =
     (Some (Err ''access denied''), [Sys (ProcessKill 4242)])"
  using Stop_graceful_then_forced
      [where p = CreateProcess and goos = "''linux''" and res = None and pid = 4242]
    Stop_graceful_then_forced
      [where p = "\<lparr>cmd_Process = Some 4242\<rparr>" and pid = 4242 and goos = "''linux''"
         and res = None]
    Stop_graceful_then_forced
      [where p = "\<lparr>cmd_Process = Some 4242\<rparr>" and pid = 4242 and goos = "''windows''"
         and res = "Some (Err ''access denied'')"]
  by (simp add: CreateProcess_def)

section \<open>Properties of the control loop, continued\<close>

text \<open>
  C7. Without watch mode. If the build has failed, no process is ever created or
  started, \<^verbatim>\<open>Run\<close> returns nothing but the error "build error", and it returns it as
  soon as the control loop has run. If the build has succeeded, then in every run
  without cancellation \<^verbatim>\<open>Run\<close> has not returned, or it has returned the error of a
  failed \<^verbatim>\<open>Start\<close>, or it has returned a status with which the process has exited
  and which the loop has received from \<^verbatim>\<open>done\<close>. And when the process has been
  started, \<^verbatim>\<open>Run\<close> does not return as long as the process has not exited, however
  often the loop runs (\<open>a\<close>), nor after the exit before the loop runs again (\<open>b\<close>);
  when the loop then runs, \<^verbatim>\<open>Run\<close> returns the exit status, whatever happens
  afterwards (\<open>rest\<close>).
\<close>

theorem one_shot_result:
  "\<not> Watch opts \<Longrightarrow>
   (Errors (Build_res w) \<noteq> [] \<longrightarrow>
      \<not> list_ex (\<lambda>a. is_start a \<or> a = CallCreateProcess) (snd (Run opts w sched)) \<and>
      (fst (Run opts w sched) = Pending \<or>
       fst (Run opts w sched) = Returns (Some (Err ''build error''))) \<and>
      (Loop li \<in> set sched \<longrightarrow> fst (Run opts w sched) = Returns (Some (Err ''build error'')))) \<and>
   (Errors (Build_res w) = [] \<and> (\<forall>t\<in>set sched. \<not> is_cancel t) \<longrightarrow>
      fst (Run opts w sched) = Pending \<or>
      (\<exists>e. Run opts w sched =
         (Returns (Some e), [CallBuild, CallCreateProcess, CallStart (Some e)])) \<or>
      (\<exists>status. Exit status \<in> set sched \<and>
         Run opts w sched =
           (Returns status, [CallBuild, CallCreateProcess, CallStart None, RecvDone status]))) \<and>
   (Errors (Build_res w) = [] \<and> start_res l2 = Inr pid \<and>
    (\<forall>t\<in>set a. \<not> is_exit t \<and> \<not> is_cancel t) \<and>
    (\<forall>t\<in>set b. \<not> is_loop t \<and> \<not> is_cancel t) \<longrightarrow>
      Run opts w ([Loop l1, Loop l2] @ a) =
        (Pending, [CallBuild, CallCreateProcess, CallStart None]) \<and>
      Run opts w ([Loop l1, Loop l2] @ a @ [Exit status] @ b) =
        (Pending, [CallBuild, CallCreateProcess, CallStart None]) \<and>
      Run opts w ([Loop l1, Loop l2] @ a @ [Exit status] @ b @ [Loop l3]) =
        (Returns status, [CallBuild, CallCreateProcess, CallStart None, RecvDone status]) \<and>
      fst (Run opts w ([Loop l1, Loop l2] @ a @ [Exit status] @ b @ [Loop l3] @ rest)) =
        Returns status)"
proof (intro conjI impI)
  assume nw: "\<not> Watch opts" and bad: "Errors (Build_res w) \<noteq> []"
  have i: "failed_inv (init False (Build_res w) [])"
    using bad by (simp add: failed_inv_def init_def)
  note e = failed_inv_exec [OF i, of "GOOS w" sched]
  from e nw show "\<not> list_ex (\<lambda>a. is_start a \<or> a = CallCreateProcess) (snd (Run opts w sched))"
    by (simp add: Run_def Let_def failed_inv_def)
  from e nw show "fst (Run opts w sched) = Pending \<or>
       fst (Run opts w sched) = Returns (Some (Err ''build error''))"
    by (auto simp: Run_def Let_def failed_inv_def g_Wait_def)
  assume "Loop li \<in> set sched"
  from failed_returns [OF i this, of "GOOS w"] e nw
  show "fst (Run opts w sched) = Returns (Some (Err ''build error''))"
    by (auto simp: Run_def Let_def failed_inv_def g_Wait_def)
next
  assume nw: "\<not> Watch opts"
    and h: "Errors (Build_res w) = [] \<and> (\<forall>t\<in>set sched. \<not> is_cancel t)"
  let ?s = "exec False (GOOS w) sched (init False (Build_res w) [])"
  have i: "one_shot_inv {} (init False (Build_res w) [])"
    using h by (simp add: one_shot_inv_def init_def)
  from one_shot_inv_exec [OF i, of sched "GOOS w"] h
  have inv: "one_shot_inv {v. Exit v \<in> set sched} ?s" by simp
  have r: "Run opts w sched = (g_Wait False ?s, trace ?s)"
    using nw by (simp add: Run_def Let_def)
  show "fst (Run opts w sched) = Pending \<or>
      (\<exists>e. Run opts w sched =
         (Returns (Some e), [CallBuild, CallCreateProcess, CallStart (Some e)])) \<or>
      (\<exists>status. Exit status \<in> set sched \<and>
         Run opts w sched =
           (Returns status, [CallBuild, CallCreateProcess, CallStart None, RecvDone status]))"
    using inv unfolding r one_shot_inv_def
    by (cases "pc ?s") (auto simp: g_Wait_def)
next
  assume nw: "\<not> Watch opts"
    and h: "Errors (Build_res w) = [] \<and> start_res l2 = Inr pid \<and>
      (\<forall>t\<in>set a. \<not> is_exit t \<and> \<not> is_cancel t) \<and>
      (\<forall>t\<in>set b. \<not> is_loop t \<and> \<not> is_cancel t)"
  let ?g = "GOOS w"
  let ?s0 = "init False (Build_res w) []"
  define s1 where "s1 = exec False ?g [Loop l1, Loop l2] ?s0"
  have s1: "s1 = \<lparr>abort_ch = False, restart_ch = 0, done_ch = Sender, pc = Select,
      waitForChange = False, result = Build_res w, proc = \<lparr>cmd_Process = Some pid\<rparr>,
      relay = CtxWait, g_err = None, effects = [],
      trace = [CallBuild, CallCreateProcess, CallStart None]\<rparr>"
    unfolding s1_def using h by (intro one_shot_started) simp_all
  have a: "exec False ?g a s1 = s1"
    using h by (intro one_shot_blocked) (simp_all add: s1)
  have x: "exec False ?g [Exit status] s1 = s1\<lparr>done_ch := Full status\<rparr>"
    using one_shot_exit_seen(1) [OF s1] by simp
  have b: "exec False ?g b (s1\<lparr>done_ch := Full status\<rparr>) = s1\<lparr>done_ch := Full status\<rparr>"
    using h by (intro one_shot_exited [where v = status]) (simp_all add: s1)
  define s2 where "s2 = s1\<lparr>done_ch := NoSender, pc := Returned status, g_err := status,
        trace := [CallBuild, CallCreateProcess, CallStart None, RecvDone status]\<rparr>"
  have l: "exec False ?g [Loop l3] (s1\<lparr>done_ch := Full status\<rparr>) = s2"
    unfolding s2_def using one_shot_exit_seen(2) [OF s1] by simp
  have e1: "exec False ?g ([Loop l1, Loop l2] @ a) ?s0 = s1"
    by (simp only: exec_append s1_def [symmetric] a)
  have e2: "exec False ?g ([Loop l1, Loop l2] @ a @ [Exit status] @ b) ?s0 =
      s1\<lparr>done_ch := Full status\<rparr>"
    by (simp only: exec_append s1_def [symmetric] a x b)
  have e3: "exec False ?g ([Loop l1, Loop l2] @ a @ [Exit status] @ b @ [Loop l3]) ?s0 = s2"
    by (simp only: exec_append s1_def [symmetric] a x b l)
  have e4: "exec False ?g ([Loop l1, Loop l2] @ a @ [Exit status] @ b @ [Loop l3] @ rest) ?s0 =
      exec False ?g rest s2"
    by (simp only: exec_append s1_def [symmetric] a x b l)
  have r: "Run opts w ts = (g_Wait False (exec False ?g ts ?s0), trace (exec False ?g ts ?s0))"
    for ts using nw by (simp add: Run_def Let_def)
  show "Run opts w ([Loop l1, Loop l2] @ a) =
        (Pending, [CallBuild, CallCreateProcess, CallStart None])"
    unfolding r e1 by (simp add: s1 g_Wait_def)
  show "Run opts w ([Loop l1, Loop l2] @ a @ [Exit status] @ b) =
        (Pending, [CallBuild, CallCreateProcess, CallStart None])"
    unfolding r e2 by (simp add: s1 g_Wait_def)
  show "Run opts w ([Loop l1, Loop l2] @ a @ [Exit status] @ b @ [Loop l3]) =
        (Returns status, [CallBuild, CallCreateProcess, CallStart None, RecvDone status])"
    unfolding r e3 by (simp add: s2_def g_Wait_def)
  have p: "pc s2 = Returned status" and rl: "relay s2 = CtxWait \<or> relay s2 = CtxExit"
    and g: "g_err s2 = status"
    by (simp_all add: s2_def s1)
  from returned_exec [OF p, of False ?g rest] one_shot_g_err_exec [OF p rl, of ?g rest] g
  show "fst (Run opts w ([Loop l1, Loop l2] @ a @ [Exit status] @ b @ [Loop l3] @ rest)) =
        Returns status"
    unfolding r e4 by (simp add: g_Wait_def)
qed

theorem one_shot_result_witness:
  "\<not> Watch one_shot_opts \<and>
   fst (Run one_shot_opts (unix_world \<lparr>Errors = [''syntax error'']\<rparr>)
          [Loop (answers (Inr 100) None 0)]) = Returns (Some (Err ''build error'')) \<and>
   \<not> list_ex (\<lambda>a. is_start a \<or> a = CallCreateProcess)
       (snd (Run one_shot_opts (unix_world \<lparr>Errors = [''syntax error'']\<rparr>)
          [Loop (answers (Inr 100) None 0)])) \<and>
   (\<exists>status. Exit status \<in> set [Loop (answers (Inr 100) None 0),
          Loop (answers (Inr 100) None 0), Exit (Some (Err ''exit status 7'')),
          Loop (answers (Inr 100) None 0)] \<and>
      Run one_shot_opts (unix_world \<lparr>Errors = []\<rparr>)
        [Loop (answers (Inr 100) None 0), Loop (answers (Inr 100) None 0),
         Exit (Some (Err ''exit status 7'')), Loop (answers (Inr 100) None 0)] =
        (Returns status, [CallBuild, CallCreateProcess, CallStart None, RecvDone status])) \<and>
   Run one_shot_opts (unix_world \<lparr>Errors = []\<rparr>)
     ([Loop (answers (Inr 100) None 0), Loop (answers (Inr 100) None 0)] @
      [Loop (answers (Inr 100) None 0), Relay (WatcherEvents (Recv ''/repo/main.ts'')),
       Loop (answers (Inr 100) None (60 * Second))]) =
     (Pending, [CallBuild, CallCreateProcess, CallStart None]) \<and>
   Run one_shot_opts (unix_world \<lparr>Errors = []\<rparr>)
     ([Loop (answers (Inr 100) None 0), Loop (answers (Inr 100) None 0)] @
      [Loop (answers (Inr 100) None 0), Relay (WatcherEvents (Recv ''/repo/main.ts'')),
       Loop (answers (Inr 100) None (60 * Second))] @
      [Exit (Some (Err ''exit status 7''))] @
      [Exit None, Relay (WatcherErrors Closed)] @ [Loop (answers (Inr 100) None 0)]) =
     (Returns (Some (Err ''exit status 7'')),
      [CallBuild, CallCreateProcess, CallStart None, RecvDone (Some (Err ''exit status 7''))])"
proof -
  let ?ok = "unix_world \<lparr>Errors = []\<rparr>"
  let ?bad = "unix_world \<lparr>Errors = [''syntax error'']\<rparr>"
  let ?l = "answers (Inr 100) None 0"
  let ?a = "[Loop ?l, Relay (WatcherEvents (Recv ''/repo/main.ts'')),
       Loop (answers (Inr 100) None (60 * Second))]"
  let ?b = "[Exit None, Relay (WatcherErrors Closed)]"
  let ?sched = "[Loop ?l, Loop ?l, Exit (Some (Err ''exit status 7'')), Loop ?l]"
  have h: "\<not> Watch one_shot_opts" by (simp add: one_shot_opts_def)
  have ok: "Errors (Build_res ?ok) = []"
    and st: "start_res ?l = Inr 100"
    and bad: "Errors (Build_res ?bad) \<noteq> []"
    and li: "Loop ?l \<in> set [Loop ?l]"
    and nc: "\<forall>t\<in>set ?sched. \<not> is_cancel t"
    and qa: "\<forall>t\<in>set ?a. \<not> is_exit t \<and> \<not> is_cancel t"
    and qb: "\<forall>t\<in>set ?b. \<not> is_loop t \<and> \<not> is_cancel t"
    by (simp_all add: unix_world_def answers_def)
  have v: "Run one_shot_opts ?ok ?sched = (Returns (Some (Err ''exit status 7'')),
      [CallBuild, CallCreateProcess, CallStart None, RecvDone (Some (Err ''exit status 7''))])"
    by code_simp
  from one_shot_result [OF h, where w = ?ok and sched = ?sched
      and ?l2.0 = ?l and pid = 100 and ?l1.0 = ?l and ?l3.0 = ?l and a = ?a and b = ?b
      and status = "Some (Err ''exit status 7'')"]
    one_shot_result [OF h, where w = ?bad and sched = "[Loop ?l]" and li = ?l]
    h ok st bad li nc qa qb v
  show ?thesis by auto
qed

text \<open>
  C8. Watch mode, the build has succeeded and the process runs. Let \<open>seg\<close> be any
  interleaving of change notifications and runs of the control loop in which the loop
  has never waited 50 ms where it stands. However many notifications it holds, nothing
  is stopped, rebuilt or started during it. Let the loop then have received, within the
  window, every signal sent. When 50 ms have passed without a notification, the loop
  stops the process, waits for its exit, rebuilds and starts the next process: one call
  of \<^verbatim>\<open>Stop\<close>, one of \<^verbatim>\<open>Rebuild\<close> and one of \<^verbatim>\<open>Start\<close>, for all the notifications
  the relay has received, which are at least one and as many as the signals sent and
  the signals received.
\<close>

theorem burst_gives_one_cycle:
  assumes "Watch opts" "NewWatcher_res w = None"
    and "add_entrypoints w (RootDir opts) (EntryPoints opts) = (None, tr)"
    and "Errors (Build_res w) = []" "start_res l2 = Inr pid"
    and "\<forall>t\<in>set seg. in_window t"
    and "waited la < 50 * Millisecond" "waited lb < 50 * Millisecond"
    and "\<forall>li\<in>set idle. waited li < 50 * Millisecond"
    and "50 * Millisecond \<le> waited l4" "kill_res l4 = None"
    and "Errors (rebuild_res l5) = []" "start_res l6 = Inr pid'"
  shows "fst (Run opts w ([Loop l1, Loop l2] @ seg)) = Pending \<and>
     filter cycle_action (snd (Run opts w ([Loop l1, Loop l2] @ seg))) =
       [CallCreateProcess, CallStart None] \<and>
     fst (Run opts w ([Loop l1, Loop l2] @ quiet_window seg la x lb idle @
            [Loop l4, Exit status, Loop l5, Loop l6])) = Pending \<and>
     filter cycle_action
       (snd (Run opts w ([Loop l1, Loop l2] @ quiet_window seg la x lb idle @
            [Loop l4, Exit status, Loop l5, Loop l6]))) =
       [CallCreateProcess, CallStart None,
        CallStop None, RecvDone status, CallRebuild, CallCreateProcess, CallStart None] \<and>
     signals_sent
       (snd (Run opts w ([Loop l1, Loop l2] @ quiet_window seg la x lb idle @
            [Loop l4, Exit status, Loop l5, Loop l6]))) =
       received True (GOOS w)
         ([Loop l1, Loop l2] @ quiet_window seg la x lb idle @
          [Loop l4, Exit status, Loop l5, Loop l6])
         (init True (Build_res w) (NewWatcher # tr)) \<and>
     signals_received
       (snd (Run opts w ([Loop l1, Loop l2] @ quiet_window seg la x lb idle @
            [Loop l4, Exit status, Loop l5, Loop l6]))) =
       received True (GOOS w)
         ([Loop l1, Loop l2] @ quiet_window seg la x lb idle @
          [Loop l4, Exit status, Loop l5, Loop l6])
         (init True (Build_res w) (NewWatcher # tr)) \<and>
     1 \<le> received True (GOOS w)
         ([Loop l1, Loop l2] @ quiet_window seg la x lb idle @
          [Loop l4, Exit status, Loop l5, Loop l6])
         (init True (Build_res w) (NewWatcher # tr))"
proof -
  let ?g = "GOOS w"
  let ?drain = "[Loop la, Relay (WatcherEvents (Recv x)), Loop lb]"
  let ?close = "[Loop l4, Exit status, Loop l5, Loop l6]"
  let ?full = "[Loop l1, Loop l2] @ quiet_window seg la x lb idle @ ?close"
  define s0 where "s0 = init True (Build_res w) (NewWatcher # tr)"
  define s1 where "s1 = exec True ?g [Loop l1, Loop l2] s0"
  define sA where "sA = exec True ?g seg s1"
  define sB where "sB = exec True ?g ?drain sA"
  define sD where "sD = exec True ?g ?close sB"
  from add_entrypoints_trace [OF assms(3)] obtain ps where tr: "tr = map WatcherAdd ps" ..
  have s1: "s1 = \<lparr>abort_ch = False, restart_ch = 0, done_ch = Sender, pc = Select,
      waitForChange = False, result = Build_res w, proc = \<lparr>cmd_Process = Some pid\<rparr>,
      relay = RSelect, g_err = None, effects = [],
      trace = (NewWatcher # tr) @ [CallBuild, CallCreateProcess, CallStart None]\<rparr>"
    unfolding s1_def s0_def by (rule watch_started [OF assms(4,5)])
  have i1: "window_inv pid s1"
    by (simp add: s1 window_inv_def tr setup_no_cycle signals_sent_def signals_received_def)
  have iA: "window_inv pid sA"
    unfolding sA_def by (rule window_inv_exec [OF i1 assms(6)])
  have iB: "window_inv pid sB"
    unfolding sB_def using assms(7,8) by (intro window_inv_exec [OF iA]) simp
  from window_drained [OF iA assms(7,8), of ?g x]
  have dB: "pc sB = Debounce" "restart_ch sB = 0" "relay sB = RSelect"
    unfolding sB_def by simp_all
  have idle: "exec True ?g (map Loop idle) sB = sB"
    by (rule idle_debounce [OF dB(1,2) assms(9)])
  from iB have pB: "done_ch sB = Sender" "cmd_Process (proc sB) = Some pid"
    by (simp_all add: window_inv_def)
  from one_cycle [OF dB(1,2) pB assms(10-13), of ?g status]
  have pD: "pc sD = Select" and relD: "relay sD = RSelect"
    and tD: "trace sD = trace sB @
      [CallStop None, RecvDone status, CallRebuild, CallCreateProcess, CallStart None]"
    unfolding sD_def using dB(3) by simp_all
  have eA: "exec True ?g ([Loop l1, Loop l2] @ seg) s0 = sA"
    by (simp only: exec_append s1_def [symmetric] sA_def [symmetric])
  have eD: "exec True ?g ?full s0 = sD"
    by (simp only: quiet_window_def exec_append s1_def [symmetric] sA_def [symmetric]
        sB_def [symmetric] idle sD_def [symmetric])
  have r: "Run opts w ts =
      (case g_Wait True (exec True ?g ts s0) of
         Returns r \<Rightarrow> (Returns r, trace (exec True ?g ts s0) @ [WatcherClose])
       | out \<Rightarrow> (out, trace (exec True ?g ts s0)))" for ts
    unfolding s0_def using assms(1-3) by (simp add: Run_def Let_def)
  from iA have "pc sA = Select \<or> pc sA = Debounce" by (auto simp: window_inv_def)
  then have gA: "g_Wait True sA = Pending" by (auto simp: g_Wait_def)
  have gD: "g_Wait True sD = Pending" using pD by (simp add: g_Wait_def)
  have rA: "Run opts w ([Loop l1, Loop l2] @ seg) = (Pending, trace sA)"
    unfolding r eA by (simp add: gA)
  have rD: "Run opts w ?full = (Pending, trace sD)"
    unfolding r eD by (simp add: gD)
  have z: "signals_sent (trace s0) = 0" "sending s0 = 0" "sending sD = 0"
    using setup_no_cycle(2) [of ps] relD
    by (simp_all add: s0_def init_def tr sending_def signals_sent_def)
  have "signals_sent (trace sD) + sending sD =
      signals_sent (trace s0) + sending s0 + received True ?g ?full s0"
    using sent_exec [of True ?g ?full s0] unfolding eD .
  then have n: "signals_sent (trace sD) = received True ?g ?full s0"
    by (simp only: z add_0_right add_0)
  from iB dB have c: "signals_received (trace sB) = signals_sent (trace sB)"
    "1 \<le> signals_received (trace sB)"
    by (simp_all add: window_inv_def)
  have m: "signals_received (trace sD) = signals_sent (trace sD)"
    "1 \<le> signals_sent (trace sD)"
    using c unfolding tD by (simp_all add: signals_sent_def signals_received_def)
  from iA have fA: "filter cycle_action (trace sA) = [CallCreateProcess, CallStart None]"
    by (simp add: window_inv_def)
  from iB have fD: "filter cycle_action (trace sD) = [CallCreateProcess, CallStart None,
        CallStop None, RecvDone status, CallRebuild, CallCreateProcess, CallStart None]"
    unfolding tD by (simp add: window_inv_def)
  show ?thesis
    unfolding rA rD s0_def [symmetric] using fA fD n m by simp
qed

theorem burst_gives_one_cycle_witness:
  "fst (Run watch_opts (unix_world \<lparr>Errors = []\<rparr>)
     ([Loop (answers (Inr 100) None 0), Loop (answers (Inr 100) None 0)] @
      quiet_window
        [Relay (WatcherEvents (Recv ''/repo/a.ts'')),
         Loop (answers (Inr 100) None (10 * Millisecond)),
         Loop (answers (Inr 100) None (20 * Millisecond)),
         Relay (WatcherEvents (Recv ''/repo/b.ts'')),
         Relay (WatcherEvents (Recv ''/repo/c.ts''))]
        (answers (Inr 100) None (10 * Millisecond)) ''/repo/c.ts''
        (answers (Inr 100) None (10 * Millisecond))
        [answers (Inr 100) None (30 * Millisecond), answers (Inr 100) None (49 * Millisecond)] @
      [Loop (answers (Inr 100) None (50 * Millisecond)), Exit None,
       Loop (answers (Inr 100) None 0), Loop (answers (Inr 101) None 0)])) = Pending \<and>
   filter cycle_action (snd (Run watch_opts (unix_world \<lparr>Errors = []\<rparr>)
     ([Loop (answers (Inr 100) None 0), Loop (answers (Inr 100) None 0)] @
      quiet_window
        [Relay (WatcherEvents (Recv ''/repo/a.ts'')),
         Loop (answers (Inr 100) None (10 * Millisecond)),
         Loop (answers (Inr 100) None (20 * Millisecond)),
         Relay (WatcherEvents (Recv ''/repo/b.ts'')),
         Relay (WatcherEvents (Recv ''/repo/c.ts''))]
        (answers (Inr 100) None (10 * Millisecond)) ''/repo/c.ts''
        (answers (Inr 100) None (10 * Millisecond))
        [answers (Inr 100) None (30 * Millisecond), answers (Inr 100) None (49 * Millisecond)] @
      [Loop (answers (Inr 100) None (50 * Millisecond)), Exit None,
       Loop (answers (Inr 100) None 0), Loop (answers (Inr 101) None 0)]))) =
     [CallCreateProcess, CallStart None,
      CallStop None, RecvDone None, CallRebuild, CallCreateProcess, CallStart None] \<and>
   signals_sent (snd (Run watch_opts (unix_world \<lparr>Errors = []\<rparr>)
     ([Loop (answers (Inr 100) None 0), Loop (answers (Inr 100) None 0)] @
      quiet_window
        [Relay (WatcherEvents (Recv ''/repo/a.ts'')),
         Loop (answers (Inr 100) None (10 * Millisecond)),
         Loop (answers (Inr 100) None (20 * Millisecond)),
         Relay (WatcherEvents (Recv ''/repo/b.ts'')),
         Relay (WatcherEvents (Recv ''/repo/c.ts''))]
        (answers (Inr 100) None (10 * Millisecond)) ''/repo/c.ts''
        (answers (Inr 100) None (10 * Millisecond))
        [answers (Inr 100) None (30 * Millisecond), answers (Inr 100) None (49 * Millisecond)] @
      [Loop (answers (Inr 100) None (50 * Millisecond)), Exit None,
       Loop (answers (Inr 100) None 0), Loop (answers (Inr 101) None 0)]))) = 3 \<and>
   signals_received (snd (Run watch_opts (unix_world \<lparr>Errors = []\<rparr>)
     ([Loop (answers (Inr 100) None 0), Loop (answers (Inr 100) None 0)] @
      quiet_window
        [Relay (WatcherEvents (Recv ''/repo/a.ts'')),
         Loop (answers (Inr 100) None (10 * Millisecond)),
         Loop (answers (Inr 100) None (20 * Millisecond)),
         Relay (WatcherEvents (Recv ''/repo/b.ts'')),
         Relay (WatcherEvents (Recv ''/repo/c.ts''))]
        (answers (Inr 100) None (10 * Millisecond)) ''/repo/c.ts''
        (answers (Inr 100) None (10 * Millisecond))
        [answers (Inr 100) None (30 * Millisecond), answers (Inr 100) None (49 * Millisecond)] @
      [Loop (answers (Inr 100) None (50 * Millisecond)), Exit None,
       Loop (answers (Inr 100) None 0), Loop (answers (Inr 101) None 0)]))) = 3"
proof -
  let ?w = "unix_world \<lparr>Errors = []\<rparr>"
  let ?l = "answers (Inr 100) None 0"
  let ?t = "answers (Inr 100) None (10 * Millisecond)"
  let ?seg = "[Relay (WatcherEvents (Recv ''/repo/a.ts'')),
         Loop (answers (Inr 100) None (10 * Millisecond)),
         Loop (answers (Inr 100) None (20 * Millisecond)),
         Relay (WatcherEvents (Recv ''/repo/b.ts'')),
         Relay (WatcherEvents (Recv ''/repo/c.ts''))]"
  let ?idle = "[answers (Inr 100) None (30 * Millisecond), answers (Inr 100) None (49 * Millisecond)]"
  let ?l4 = "answers (Inr 100) None (50 * Millisecond)"
  let ?l6 = "answers (Inr 101) None 0"
  let ?full = "[Loop ?l, Loop ?l] @ quiet_window ?seg ?t ''/repo/c.ts'' ?t ?idle @
      [Loop ?l4, Exit None, Loop ?l, Loop ?l6]"
  have h1: "Watch watch_opts" by (simp add: watch_opts_def)
  have h2: "NewWatcher_res ?w = None" by (simp add: unix_world_def)
  have h3: "add_entrypoints ?w (RootDir watch_opts) (EntryPoints watch_opts) =
      (None, [WatcherAdd ''/repo/main.ts''])"
    by (simp add: unix_world_def watch_opts_def abs_entrypoint_def)
  have h4: "Errors (Build_res ?w) = []" by (simp add: unix_world_def)
  have h5: "start_res ?l = Inr 100" by (simp add: answers_def)
  have h6: "\<forall>t\<in>set ?seg. in_window t" by (simp add: answers_def Millisecond_def)
  have h7: "waited ?t < 50 * Millisecond" by (simp add: answers_def Millisecond_def)
  have h9: "\<forall>li\<in>set ?idle. waited li < 50 * Millisecond"
    by (simp add: answers_def Millisecond_def)
  have h10: "50 * Millisecond \<le> waited ?l4" by (simp add: answers_def)
  have h11: "kill_res ?l4 = None" by (simp add: answers_def)
  have h12: "Errors (rebuild_res ?l) = []" by (simp add: answers_def)
  have h13: "start_res ?l6 = Inr 101" by (simp add: answers_def)
  have n: "received True (GOOS ?w) ?full
      (init True (Build_res ?w) [NewWatcher, WatcherAdd ''/repo/main.ts'']) = 3"
    by code_simp
  from burst_gives_one_cycle [OF h1 h2 h3 h4 h5 h6 h7 h7 h9 h10 h11 h12 h13,
      of ?l "''/repo/c.ts''" None]
  show ?thesis unfolding n by simp
qed

text \<open>
  C9, as the code has it. In every run of the program, \<^verbatim>\<open>Start\<close> is called only
  when no process has been started before, or when \<^verbatim>\<open>Stop\<close> has been called since
  the previous process was started and either that call returned an error or a value
  has since been received from \<^verbatim>\<open>done\<close>.
\<close>

theorem next_start_only_after_stop:
  "starts_confirmed stop_attempted nothing_seen (snd (Run opts w sched))"
proof -
  have a: "starts_confirmed stop_attempted nothing_seen (trace (exec wt g sched (init wt res [])))"
    for wt g res
    using start_inv_exec [OF start_inv_init(1)] by (simp add: start_inv_def)
  have b: "starts_confirmed stop_attempted nothing_seen
      (trace (exec wt g sched (init wt res (NewWatcher # map WatcherAdd ps))))" for wt g res ps
    using start_inv_exec [OF start_inv_init(2)] by (simp add: start_inv_def)
  obtain r tr where add: "add_entrypoints w (RootDir opts) (EntryPoints opts) = (r, tr)"
    by (cases "add_entrypoints w (RootDir opts) (EntryPoints opts)")
  from add_entrypoints_trace [OF add] obtain ps where tr: "tr = map WatcherAdd ps" ..
  show ?thesis
    using a b
    by (auto simp: Run_def add tr Let_def starts_confirmed_append starts_confirmed_setup
        split: option.splits outcome.splits)
qed

theorem next_start_only_after_stop_witness:
  "length (filter is_start (snd (Run watch_opts (unix_world \<lparr>Errors = []\<rparr>)
        [Loop (answers (Inr 100) None 0), Loop (answers (Inr 100) None 0),
         Relay (WatcherEvents (Recv ''/repo/main.ts'')), Loop (answers (Inr 100) None 0),
         Loop (answers (Inr 100) (Some (Err ''operation not permitted'')) (50 * Millisecond)),
         Loop (answers (Inr 101) None 0)]))) = 2 \<and>
   starts_confirmed stop_attempted nothing_seen
     (snd (Run watch_opts (unix_world \<lparr>Errors = []\<rparr>)
        [Loop (answers (Inr 100) None 0), Loop (answers (Inr 100) None 0),
         Relay (WatcherEvents (Recv ''/repo/main.ts'')), Loop (answers (Inr 100) None 0),
         Loop (answers (Inr 100) (Some (Err ''operation not permitted'')) (50 * Millisecond)),
         Loop (answers (Inr 101) None 0)]))"
proof -
  have "length (filter is_start (snd (Run watch_opts (unix_world \<lparr>Errors = []\<rparr>)
        [Loop (answers (Inr 100) None 0), Loop (answers (Inr 100) None 0),
         Relay (WatcherEvents (Recv ''/repo/main.ts'')), Loop (answers (Inr 100) None 0),
         Loop (answers (Inr 100) (Some (Err ''operation not permitted'')) (50 * Millisecond)),
         Loop (answers (Inr 101) None 0)]))) = 2"
    by code_simp
  with next_start_only_after_stop [of watch_opts "unix_world \<lparr>Errors = []\<rparr>"
        "[Loop (answers (Inr 100) None 0), Loop (answers (Inr 100) None 0),
         Relay (WatcherEvents (Recv ''/repo/main.ts'')), Loop (answers (Inr 100) None 0),
         Loop (answers (Inr 100) (Some (Err ''operation not permitted'')) (50 * Millisecond)),
         Loop (answers (Inr 101) None 0)]"]
  show ?thesis by simp
qed

text \<open>
  C9 as the specification states it (the exit of the previous process has always been
  observed) fails: when \<^verbatim>\<open>Stop\<close> returns an error, the loop does not call
  \<^verbatim>\<open>waitDone()\<close>; it rebuilds and starts the next process.
\<close>

theorem restart_without_exit_observed:
  "\<not> starts_confirmed confirmed_stopped nothing_seen
     (snd (Run watch_opts (unix_world \<lparr>Errors = []\<rparr>)
        [Loop (answers (Inr 100) None 0), Loop (answers (Inr 100) None 0),
         Relay (WatcherEvents (Recv ''/repo/main.ts'')), Loop (answers (Inr 100) None 0),
         Loop (answers (Inr 100) (Some (Err ''operation not permitted'')) (50 * Millisecond)),
         Loop (answers (Inr 101) None 0)]))"
  by code_simp

section \<open>Properties of the setup of \<^verbatim>\<open>Run\<close>\<close>

text \<open>
  C10. In watch mode, if \<^verbatim>\<open>watcher.Add\<close> fails for an entry point, \<^verbatim>\<open>Run\<close> returns
  at once, whatever the schedule: it returns the error of \<^verbatim>\<open>watcher.Add\<close> for the
  first entry point that fails, wrapped with the path; the build has not been called
  and no process has been created or started.
\<close>

theorem Run_entrypoint_watch_failure:
  "Watch opts \<Longrightarrow> NewWatcher_res w = None \<Longrightarrow> e \<in> set (EntryPoints opts) \<Longrightarrow>
   watcher_Add w (abs_entrypoint w (RootDir opts) e) \<noteq> None \<Longrightarrow>
   \<exists>p err tr. Run opts w sched = (Returns (Some (Watching p err)), tr) \<and>
     watcher_Add w p = Some err \<and>
     p \<in> abs_entrypoint w (RootDir opts) ` set (EntryPoints opts) \<and>
     CallBuild \<notin> set tr \<and> CallCreateProcess \<notin> set tr \<and> \<not> list_ex is_start tr"
proof -
  assume wt: "Watch opts" and nw: "NewWatcher_res w = None"
    and e: "e \<in> set (EntryPoints opts)"
    and f: "watcher_Add w (abs_entrypoint w (RootDir opts) e) \<noteq> None"
  from add_entrypoints_fails [OF e f] obtain p err ps where
    r: "add_entrypoints w (RootDir opts) (EntryPoints opts) = (Some (Watching p err), map WatcherAdd ps)"
    and a: "watcher_Add w p = Some err"
    and m: "p \<in> abs_entrypoint w (RootDir opts) ` set (EntryPoints opts)"
    by blast
  have "Run opts w sched =
      (Returns (Some (Watching p err)), NewWatcher # map WatcherAdd ps @ [WatcherClose])"
    using wt nw r by (simp add: Run_def)
  moreover have "CallBuild \<notin> set (NewWatcher # map WatcherAdd ps @ [WatcherClose])"
    "CallCreateProcess \<notin> set (NewWatcher # map WatcherAdd ps @ [WatcherClose])"
    "\<not> list_ex is_start (NewWatcher # map WatcherAdd ps @ [WatcherClose])"
    by (auto simp: list_ex_iff)
  ultimately show ?thesis using a m by blast
qed

theorem Run_entrypoint_watch_failure_witness:
  "Watch watch_opts \<and>
   NewWatcher_res ((unix_world \<lparr>Errors = []\<rparr>)
      \<lparr>watcher_Add := (\<lambda>p. Some (Err ''no such file or directory''))\<rparr>) = None \<and>
   ''main.ts'' \<in> set (EntryPoints watch_opts) \<and>
   (\<exists>p err tr.
      Run watch_opts ((unix_world \<lparr>Errors = []\<rparr>)
          \<lparr>watcher_Add := (\<lambda>p. Some (Err ''no such file or directory''))\<rparr>)
        [Loop (answers (Inr 100) None 0)] = (Returns (Some (Watching p err)), tr) \<and>
      p = ''/repo/main.ts'' \<and> err = Err ''no such file or directory'' \<and>
      CallBuild \<notin> set tr \<and> CallCreateProcess \<notin> set tr \<and> \<not> list_ex is_start tr)"
proof -
  let ?w = "(unix_world \<lparr>Errors = []\<rparr>)\<lparr>watcher_Add := (\<lambda>p. Some (Err ''no such file or directory''))\<rparr>"
  have h1: "Watch watch_opts" by (simp add: watch_opts_def)
  have h2: "NewWatcher_res ?w = None" by (simp add: unix_world_def)
  have h3: "''main.ts'' \<in> set (EntryPoints watch_opts)" by (simp add: watch_opts_def)
  have h4: "watcher_Add ?w (abs_entrypoint ?w (RootDir watch_opts) ''main.ts'') \<noteq> None"
    by (simp add: unix_world_def)
  have i: "abs_entrypoint ?w (RootDir watch_opts) ` set (EntryPoints watch_opts) = {''/repo/main.ts''}"
    by (simp add: unix_world_def watch_opts_def abs_entrypoint_def)
  have a: "watcher_Add ?w p = Some (Err ''no such file or directory'')" for p
    by (simp add: unix_world_def)
  from Run_entrypoint_watch_failure [OF h1 h2 h3 h4, of "[Loop (answers (Inr 100) None 0)]"]
  show ?thesis using h1 h2 h3 unfolding i a by auto
qed

end
